theory Spec2Isabelle
  imports Complex_Main
begin

section \<open>JavaScript numbers\<close>

text \<open>
  Every number of \<^verbatim>\<open>app.js\<close> is an IEEE 754 binary64 value: rotation angles, speeds,
  the frame delta and the pointer coordinates. A finite double is modelled by the real
  number it denotes, the two infinities and NaN by constructors of their own. The two
  zeros are identified: \<^verbatim>\<open>===\<close> and \<^verbatim>\<open>>=\<close> do not tell them apart, and the only
  operation that does, a division by zero, takes the zero divisor as \<^verbatim>\<open>+0\<close> here (the
  program divides by \<^verbatim>\<open>window.innerWidth\<close> and \<^verbatim>\<open>window.innerHeight\<close> only).
\<close>

datatype js_number = Finite real | PosInf | NegInf | NaN

text \<open>The number of binary digits of a natural number.\<close>

fun bitlen :: "nat \<Rightarrow> nat" where
  "bitlen n = (if n = 0 then 0 else Suc (bitlen (n div 2)))"

declare bitlen.simps [simp del]

text \<open>Rounding to the nearest integer, a tie going to the even neighbour.\<close>

definition round_half_even :: "real \<Rightarrow> int" where
  "round_half_even z =
     (let f = \<lfloor>z\<rfloor>; d = z - of_int f
      in if d < 1 / 2 then f else if 1 / 2 < d then f + 1 else if even f then f else f + 1)"

text \<open>
  Rounding an exact result to binary64, round-to-nearest, ties-to-even. In units of the
  smallest subnormal \<open>2 ^ -1074\<close> the magnitude is \<open>y\<close>; the doubles near \<open>y\<close> are the
  multiples of \<open>2 ^ s\<close>, where \<open>s\<close> is the number of digits of \<open>y\<close> beyond the 53 of
  the significand (none in the subnormal range). A rounded magnitude of \<open>2 ^ 1024\<close> or
  more overflows to an infinity.
\<close>

definition round_double :: "real \<Rightarrow> js_number" where
  "round_double q =
     (let y = \<bar>q\<bar> * 2 ^ 1074;
          s = bitlen (nat \<lfloor>y\<rfloor>) - 53;
          m = round_half_even (y / 2 ^ s);
          r = of_int m * 2 ^ s / 2 ^ 1074
      in if 2 ^ 1024 \<le> r then (if 0 < q then PosInf else NegInf)
         else Finite (if 0 \<le> q then r else - r))"

text \<open>A real number is a double when rounding leaves it alone.\<close>

definition is_double :: "real \<Rightarrow> bool" where
  "is_double q = (round_double q = Finite q)"

text \<open>A numeric literal of the source denotes the double nearest to its decimal value.\<close>

definition num :: "real \<Rightarrow> js_number" where
  "num q = round_double q"

text \<open>The sign of \<open>a * Infinity\<close>; \<open>0 * Infinity\<close> is NaN.\<close>

definition inf_times :: "real \<Rightarrow> js_number" where
  "inf_times a = (if a = 0 then NaN else if 0 < a then PosInf else NegInf)"

fun js_neg :: "js_number \<Rightarrow> js_number" where
  "js_neg (Finite a) = Finite (- a)"
| "js_neg PosInf = NegInf"
| "js_neg NegInf = PosInf"
| "js_neg NaN = NaN"

fun js_add :: "js_number \<Rightarrow> js_number \<Rightarrow> js_number" where
  "js_add (Finite a) (Finite b) = round_double (a + b)"
| "js_add (Finite a) PosInf = PosInf"
| "js_add (Finite a) NegInf = NegInf"
| "js_add PosInf (Finite b) = PosInf"
| "js_add PosInf PosInf = PosInf"
| "js_add PosInf NegInf = NaN"
| "js_add NegInf (Finite b) = NegInf"
| "js_add NegInf NegInf = NegInf"
| "js_add NegInf PosInf = NaN"
| "js_add NaN b = NaN"
| "js_add a NaN = NaN"

definition js_sub :: "js_number \<Rightarrow> js_number \<Rightarrow> js_number" where
  "js_sub a b = js_add a (js_neg b)"

fun js_mul :: "js_number \<Rightarrow> js_number \<Rightarrow> js_number" where
  "js_mul (Finite a) (Finite b) = round_double (a * b)"
| "js_mul (Finite a) PosInf = inf_times a"
| "js_mul (Finite a) NegInf = inf_times (- a)"
| "js_mul PosInf (Finite b) = inf_times b"
| "js_mul NegInf (Finite b) = inf_times (- b)"
| "js_mul PosInf PosInf = PosInf"
| "js_mul PosInf NegInf = NegInf"
| "js_mul NegInf PosInf = NegInf"
| "js_mul NegInf NegInf = PosInf"
| "js_mul NaN b = NaN"
| "js_mul a NaN = NaN"

fun js_div :: "js_number \<Rightarrow> js_number \<Rightarrow> js_number" where
  "js_div (Finite a) (Finite b) = (if b = 0 then inf_times a else round_double (a / b))"
| "js_div (Finite a) PosInf = Finite 0"
| "js_div (Finite a) NegInf = Finite 0"
| "js_div PosInf (Finite b) = (if 0 \<le> b then PosInf else NegInf)"
| "js_div NegInf (Finite b) = (if 0 \<le> b then NegInf else PosInf)"
| "js_div PosInf PosInf = NaN"
| "js_div PosInf NegInf = NaN"
| "js_div NegInf PosInf = NaN"
| "js_div NegInf NegInf = NaN"
| "js_div NaN b = NaN"
| "js_div a NaN = NaN"

text \<open>The comparison \<^verbatim>\<open>a <= b\<close>; every comparison with NaN is false.\<close>

fun js_le :: "js_number \<Rightarrow> js_number \<Rightarrow> bool" where
  "js_le (Finite a) (Finite b) = (a \<le> b)"
| "js_le (Finite a) PosInf = True"
| "js_le (Finite a) NegInf = False"
| "js_le PosInf (Finite b) = False"
| "js_le PosInf PosInf = True"
| "js_le PosInf NegInf = False"
| "js_le NegInf (Finite b) = True"
| "js_le NegInf PosInf = True"
| "js_le NegInf NegInf = True"
| "js_le NaN b = False"
| "js_le a NaN = False"

fun is_finite :: "js_number \<Rightarrow> bool" where
  "is_finite (Finite a) = True"
| "is_finite PosInf = False"
| "is_finite NegInf = False"
| "is_finite NaN = False"

text \<open>\<^verbatim>\<open>Math.PI\<close>, the double nearest to \<open>\<pi>\<close>.\<close>

definition Math_PI :: js_number where
  "Math_PI = Finite (884279719003555 / 2 ^ 48)"

section \<open>The scene graph\<close>

text \<open>
  The objects of the 3D library live in a store; a reference to an object is its index
  in the store, so that two references to one object share its fields, as the
  \<^verbatim>\<open>group\<close> of a \<^verbatim>\<open>planetOrbits\<close> item and the child of the scene do.
\<close>

record vector2 =
  vec2_x :: js_number
  vec2_y :: js_number

record vector3 =
  vec_x :: js_number
  vec_y :: js_number
  vec_z :: js_number

record euler =
  euler_x :: js_number
  euler_y :: js_number
  euler_z :: js_number

datatype geometry =
    SphereGeometry js_number nat nat
  | RingGeometry js_number js_number nat

datatype material =
    MeshBasicMaterial nat bool bool js_number
  | MeshStandardMaterial_color "nat option"
  | MeshStandardMaterial_map string

datatype object_kind =
    Scene
  | Object3D
  | Mesh geometry material
  | AmbientLight nat js_number
  | DirectionalLight nat js_number

datatype user_data = UserData string string

record object3d =
  kind :: object_kind
  position :: vector3
  rotation :: euler
  children :: "nat list"
  userData :: "user_data option"

record planet_data =
  name :: string
  orbitRadius :: js_number
  planetRadius :: js_number
  color :: "nat option"
  rotationSpeed :: js_number
  texture :: "string option"
  funFact :: string
  hasMoon :: bool
  hasRings :: bool

record orbit_item =
  group :: nat
  speed :: js_number

record perspective_camera =
  camera_position :: vector3
  fov :: js_number
  aspect :: js_number
  near :: js_number
  far :: js_number

record ray =
  origin :: vector3
  direction :: vector3

text \<open>An element of the page: its inline style, property by property, and its content.\<close>

record dom_element =
  style :: "(string \<times> string) list"
  innerHTML :: string

text \<open>
  The module-level variables of \<^verbatim>\<open>app.js\<close>, the two elements it creates, the
  callbacks it has pending with \<^verbatim>\<open>setTimeout\<close> (each by the time it is due, in
  milliseconds) and the time.
\<close>

record app_state =
  objects :: "object3d list"
  planetOrbits :: "orbit_item list"
  hoverablePlanets :: "nat list"
  animationActive :: bool
  camera :: perspective_camera
  mouse :: vector2
  raycaster_ray :: ray
  innerWidth :: js_number
  innerHeight :: js_number
  tooltip :: dom_element
  gifOverlay :: "dom_element option"
  timers :: "nat list"
  now :: nat

definition zero3 :: vector3 where
  "zero3 = \<lparr>vec_x = Finite 0, vec_y = Finite 0, vec_z = Finite 0\<rparr>"

definition new_object3d :: "object_kind \<Rightarrow> object3d" where
  "new_object3d k =
     \<lparr>kind = k, position = zero3,
      rotation = \<lparr>euler_x = Finite 0, euler_y = Finite 0, euler_z = Finite 0\<rparr>,
      children = [], userData = None\<rparr>"

text \<open>\<^verbatim>\<open>new\<close>: the object goes to the end of the store, its reference is returned.\<close>

definition alloc :: "object3d \<Rightarrow> app_state \<Rightarrow> nat \<times> app_state" where
  "alloc ob st = (length (objects st), st\<lparr>objects := objects st @ [ob]\<rparr>)"

definition modify :: "nat \<Rightarrow> (object3d \<Rightarrow> object3d) \<Rightarrow> app_state \<Rightarrow> app_state" where
  "modify r f st = st\<lparr>objects := (objects st)[r := f (objects st ! r)]\<rparr>"

text \<open>
  \<^verbatim>\<open>parent.add(child)\<close>. The library also detaches the child from a former parent;
  every child this program adds is fresh.
\<close>

definition add :: "nat \<Rightarrow> nat \<Rightarrow> app_state \<Rightarrow> app_state" where
  "add parent child = modify parent (\<lambda>ob. ob\<lparr>children := children ob @ [child]\<rparr>)"

text \<open>The scene is the first object the script creates.\<close>

definition scene :: nat where
  "scene = 0"

definition position_set :: "js_number \<Rightarrow> js_number \<Rightarrow> js_number \<Rightarrow> object3d \<Rightarrow> object3d" where
  "position_set a b c ob = ob\<lparr>position := \<lparr>vec_x = a, vec_y = b, vec_z = c\<rparr>\<rparr>"

definition createPlanetOrbit :: "js_number \<Rightarrow> nat \<Rightarrow> app_state \<Rightarrow> nat \<times> app_state" where
  "createPlanetOrbit orbit_radius planetMesh st =
     (let (orbitGroup, st1) = alloc (new_object3d Object3D) st;
          st2 = modify planetMesh (position_set orbit_radius (Finite 0) (Finite 0)) st1;
          st3 = add orbitGroup planetMesh st2;
          st4 = add scene orbitGroup st3
      in (orbitGroup, st4))"

definition planetsData :: "planet_data list" where
  "planetsData =
    [\<lparr>name = ''Mercury'', orbitRadius = num 8, planetRadius = num (5 / 10),
      color = Some 0xaaaaaa, rotationSpeed = num (2 / 100), texture = None,
      funFact = ''Mercury is the smallest planet and closest to the Sun.'',
      hasMoon = False, hasRings = False\<rparr>,
     \<lparr>name = ''Venus'', orbitRadius = num 11, planetRadius = num (7 / 10),
      color = Some 0xeed5b7, rotationSpeed = num (15 / 1000), texture = None,
      funFact = ''Venus has a thick atmosphere and is the hottest planet.'',
      hasMoon = False, hasRings = False\<rparr>,
     \<lparr>name = ''Earth'', orbitRadius = num 14, planetRadius = num 1,
      color = None, rotationSpeed = num (1 / 100),
      texture = Some ''https://threejs.org/examples/textures/land_ocean_ice_cloud_2048.jpg'',
      funFact = ''Earth is our home and the only planet known to support life.'',
      hasMoon = True, hasRings = False\<rparr>,
     \<lparr>name = ''Mars'', orbitRadius = num 17, planetRadius = num (53 / 100),
      color = Some 0xff4500, rotationSpeed = num (8 / 1000), texture = None,
      funFact = ''Mars is known as the Red Planet, home to the tallest volcano.'',
      hasMoon = False, hasRings = False\<rparr>,
     \<lparr>name = ''Jupiter'', orbitRadius = num 22, planetRadius = num 2,
      color = Some 0xffa500, rotationSpeed = num (5 / 1000), texture = None,
      funFact = ''Jupiter is the largest planet and features the Great Red Spot.'',
      hasMoon = False, hasRings = False\<rparr>,
     \<lparr>name = ''Saturn'', orbitRadius = num 28, planetRadius = num (17 / 10),
      color = Some 0xffd27f, rotationSpeed = num (3 / 1000), texture = None,
      funFact = ''Saturn is famous for its spectacular rings.'',
      hasMoon = False, hasRings = True\<rparr>,
     \<lparr>name = ''Uranus'', orbitRadius = num 34, planetRadius = num (12 / 10),
      color = Some 0x66ccff, rotationSpeed = num (2 / 1000), texture = None,
      funFact = ''Uranus rotates on its side, giving it extreme seasons.'',
      hasMoon = False, hasRings = False\<rparr>,
     \<lparr>name = ''Neptune'', orbitRadius = num 40, planetRadius = num (12 / 10),
      color = Some 0x3366ff, rotationSpeed = num (1 / 1000), texture = None,
      funFact = ''Neptune has supersonic winds and a deep blue color.'',
      hasMoon = False, hasRings = False\<rparr>]"

text \<open>
  The material of a planet: the texture when \<^verbatim>\<open>planetData.texture\<close> is truthy (present
  and not the empty string), the colour otherwise.
\<close>

definition planet_material :: "planet_data \<Rightarrow> material" where
  "planet_material planetData =
     (case texture planetData of
        Some url \<Rightarrow>
          if url \<noteq> [] then MeshStandardMaterial_map url
          else MeshStandardMaterial_color (color planetData)
      | None \<Rightarrow> MeshStandardMaterial_color (color planetData))"

definition add_moon :: "nat \<Rightarrow> app_state \<Rightarrow> app_state" where
  "add_moon planetMesh st =
     (let (moonMesh, st1) =
            alloc (new_object3d
              (Mesh (SphereGeometry (num (27 / 100)) 32 32)
                 (MeshStandardMaterial_map ''https://threejs.org/examples/textures/moon_1024.jpg''))) st;
          (moonOrbit, st2) = alloc (new_object3d Object3D) st1;
          st3 = modify moonMesh (position_set (num 2) (Finite 0) (Finite 0)) st2;
          st4 = add moonOrbit moonMesh st3;
          st5 = add planetMesh moonOrbit st4
      in st5\<lparr>planetOrbits := planetOrbits st5 @ [\<lparr>group = moonOrbit, speed = num (5 / 100)\<rparr>]\<rparr>)"

definition add_rings :: "planet_data \<Rightarrow> nat \<Rightarrow> app_state \<Rightarrow> app_state" where
  "add_rings planetData planetMesh st =
     (let (ringMesh, st1) =
            alloc (new_object3d
              (Mesh (RingGeometry (js_mul (planetRadius planetData) (num (12 / 10)))
                       (js_mul (planetRadius planetData) (num (18 / 10))) 32)
                 (MeshBasicMaterial 0x8d6e63 True True (num (7 / 10))))) st;
          st2 = modify ringMesh
                  (\<lambda>ob. ob\<lparr>rotation := (rotation ob)\<lparr>euler_x := js_div Math_PI (num 2)\<rparr>\<rparr>) st1
      in add planetMesh ringMesh st2)"

text \<open>The body of \<^verbatim>\<open>planetsData.forEach\<close>, for one entry of the catalog.\<close>

definition build_planet :: "app_state \<Rightarrow> planet_data \<Rightarrow> app_state" where
  "build_planet st planetData =
     (let (planetMesh, st1) =
            alloc ((new_object3d
                     (Mesh (SphereGeometry (planetRadius planetData) 32 32)
                        (planet_material planetData)))
                   \<lparr>userData := Some (UserData (name planetData) (funFact planetData))\<rparr>) st;
          st2 = st1\<lparr>hoverablePlanets := hoverablePlanets st1 @ [planetMesh]\<rparr>;
          (orbitGroup, st3) = createPlanetOrbit (orbitRadius planetData) planetMesh st2;
          st4 = st3\<lparr>planetOrbits := planetOrbits st3 @
                       [\<lparr>group = orbitGroup, speed = rotationSpeed planetData\<rparr>]\<rparr>;
          st5 = (if hasMoon planetData then add_moon planetMesh st4 else st4)
      in if hasRings planetData then add_rings planetData planetMesh st5 else st5)"

definition buildSystem :: "planet_data list \<Rightarrow> app_state \<Rightarrow> app_state" where
  "buildSystem catalog st = foldl build_planet st catalog"

text \<open>
  The script up to the planets: the scene, the camera, the two lights, the empty
  tooltip and the sun, for a window of the given size.
\<close>

definition init_scene :: "js_number \<Rightarrow> js_number \<Rightarrow> app_state" where
  "init_scene w h =
     (let st0 = \<lparr>objects = [new_object3d Scene], planetOrbits = [], hoverablePlanets = [],
                 animationActive = True,
                 camera = \<lparr>camera_position = \<lparr>vec_x = Finite 0, vec_y = num 30, vec_z = num 80\<rparr>,
                           fov = num 45, aspect = js_div w h, near = num (1 / 10), far = num 1000\<rparr>,
                 mouse = \<lparr>vec2_x = Finite 0, vec2_y = Finite 0\<rparr>,
                 raycaster_ray = \<lparr>origin = zero3,
                                  direction = \<lparr>vec_x = Finite 0, vec_y = Finite 0, vec_z = num (- 1)\<rparr>\<rparr>,
                 innerWidth = w, innerHeight = h,
                 tooltip = \<lparr>style = [], innerHTML = []\<rparr>,
                 gifOverlay = None, timers = [], now = 0\<rparr>;
          (ambientLight, st1) = alloc (new_object3d (AmbientLight 0x404040 (num 2))) st0;
          st2 = add scene ambientLight st1;
          (directionalLight, st3) = alloc (new_object3d (DirectionalLight 0xffffff (num 2))) st2;
          st4 = modify directionalLight (position_set (num 50) (num 50) (num 50)) st3;
          st5 = add scene directionalLight st4;
          (sun, st6) =
            alloc (new_object3d (Mesh (SphereGeometry (num 4) 32 32)
                     (MeshBasicMaterial 0xffff00 False False (num 1)))) st5
      in add scene sun st6)"

text \<open>The state once the script has run, before the first frame and the first event.\<close>

definition startup :: "js_number \<Rightarrow> js_number \<Rightarrow> app_state" where
  "startup w h = buildSystem planetsData (init_scene w h)"

section \<open>The animation loop\<close>

text \<open>\<^verbatim>\<open>item.group.rotation.y += item.speed * delta * 60\<close>, for one item.\<close>

definition rotate_item :: "js_number \<Rightarrow> app_state \<Rightarrow> orbit_item \<Rightarrow> app_state" where
  "rotate_item delta st item =
     modify (group item)
       (\<lambda>ob. ob\<lparr>rotation := (rotation ob)
                 \<lparr>euler_y := js_add (euler_y (rotation ob))
                               (js_mul (js_mul (speed item) delta) (num 60))\<rparr>\<rparr>) st"

text \<open>
  The conditional of \<^verbatim>\<open>animate\<close>, which the specification calls \<^verbatim>\<open>advance\<close>:
  while the animation is active every item of \<^verbatim>\<open>planetOrbits\<close> is turned, in order.
\<close>

definition advance :: "js_number \<Rightarrow> app_state \<Rightarrow> app_state" where
  "advance delta st =
     (if animationActive st then foldl (rotate_item delta) st (planetOrbits st) else st)"

section \<open>The library and the platform\<close>

text \<open>
  Modelled from the spec: the ray caster, the orbit controls and the conversion of a
  number to a string are not under \<^verbatim>\<open>src/\<close>. What the geometry computes is a parameter:
  \<open>setFromCamera\<close> gives the ray through a normalized pointer position,
  \<open>raycast r objs t\<close> the ray parameters at which the ray \<open>r\<close> meets the object \<open>t\<close> of
  the store \<open>objs\<close> (none when it misses), \<open>controls_update\<close> what the orbit controls
  do to the camera in a frame.
\<close>

record three_lib =
  setFromCamera :: "vector2 \<Rightarrow> perspective_camera \<Rightarrow> ray"
  raycast :: "ray \<Rightarrow> object3d list \<Rightarrow> nat \<Rightarrow> real list"
  controls_update :: "perspective_camera \<Rightarrow> perspective_camera"
  number_to_string :: "js_number \<Rightarrow> string"

record intersection =
  distance :: real
  object :: nat

text \<open>
  Modelled from the spec: \<^verbatim>\<open>raycaster.intersectObjects(objects)\<close> tests the objects it
  is given, and only them, and returns the hits sorted by ray parameter, nearest first
  (the sort is stable).
\<close>

definition intersectObjects ::
  "three_lib \<Rightarrow> ray \<Rightarrow> object3d list \<Rightarrow> nat list \<Rightarrow> intersection list" where
  "intersectObjects lib r objs targets =
     sort_key distance
       (concat (map (\<lambda>t. map (\<lambda>d. \<lparr>distance = d, object = t\<rparr>) (raycast lib r objs t)) targets))"

section \<open>Pointer events\<close>

primrec style_set :: "string \<Rightarrow> string \<Rightarrow> (string \<times> string) list \<Rightarrow> (string \<times> string) list" where
  "style_set k v [] = [(k, v)]"
| "style_set k v (p # ps) = (if fst p = k then (k, v) # ps else p # style_set k v ps)"

definition set_style :: "string \<Rightarrow> string \<Rightarrow> dom_element \<Rightarrow> dom_element" where
  "set_style k v el = el\<lparr>style := style_set k v (style el)\<rparr>"

definition get_style :: "string \<Rightarrow> dom_element \<Rightarrow> string option" where
  "get_style k el = map_of (style el) k"

text \<open>
  The first four statements of \<^verbatim>\<open>onMouseMove\<close> and of \<^verbatim>\<open>onClick\<close>, which are the
  same: the pointer position is normalized into \<^verbatim>\<open>mouse\<close>, the ray caster is aimed
  through it, and the ray is intersected with \<^verbatim>\<open>hoverablePlanets\<close>.
\<close>

definition pointer_intersects ::
  "three_lib \<Rightarrow> js_number \<Rightarrow> js_number \<Rightarrow> app_state \<Rightarrow> intersection list \<times> app_state" where
  "pointer_intersects lib clientX clientY st =
     (let st1 = st\<lparr>mouse := (mouse st)
                   \<lparr>vec2_x := js_sub (js_mul (js_div clientX (innerWidth st)) (num 2)) (num 1)\<rparr>\<rparr>;
          st2 = st1\<lparr>mouse := (mouse st1)
                   \<lparr>vec2_y := js_add (js_mul (js_neg (js_div clientY (innerHeight st1))) (num 2))
                                (num 1)\<rparr>\<rparr>;
          st3 = st2\<lparr>raycaster_ray := setFromCamera lib (mouse st2) (camera st2)\<rparr>
      in (intersectObjects lib (raycaster_ray st3) (objects st3) (hoverablePlanets st3), st3))"

text \<open>
  What the specification calls \<^verbatim>\<open>pick\<close>: \<^verbatim>\<open>intersects[0].object\<close> when
  \<^verbatim>\<open>intersects.length > 0\<close>, as both handlers read it.
\<close>

definition pick :: "three_lib \<Rightarrow> js_number \<Rightarrow> js_number \<Rightarrow> app_state \<Rightarrow> nat option" where
  "pick lib clientX clientY st =
     (case fst (pointer_intersects lib clientX clientY st) of
        [] \<Rightarrow> None
      | i # _ \<Rightarrow> Some (object i))"

text \<open>\<^verbatim>\<open>userData.name\<close> and \<^verbatim>\<open>userData.funFact\<close>, undefined on an object that has none.\<close>

definition userData_name :: "object3d \<Rightarrow> string option" where
  "userData_name ob = (case userData ob of Some (UserData n f) \<Rightarrow> Some n | None \<Rightarrow> None)"

definition userData_funFact :: "object3d \<Rightarrow> string option" where
  "userData_funFact ob = (case userData ob of Some (UserData n f) \<Rightarrow> Some f | None \<Rightarrow> None)"

text \<open>A value inside a template literal.\<close>

definition template :: "string option \<Rightarrow> string" where
  "template v = (case v of Some s \<Rightarrow> s | None \<Rightarrow> ''undefined'')"

definition onMouseMove :: "three_lib \<Rightarrow> js_number \<Rightarrow> js_number \<Rightarrow> app_state \<Rightarrow> app_state" where
  "onMouseMove lib clientX clientY st =
     (let (intersects, st1) = pointer_intersects lib clientX clientY st
      in case intersects of
           i # _ \<Rightarrow>
             (let intersected = objects st1 ! object i;
                  t1 = set_style ''display'' ''block'' (tooltip st1);
                  t2 = t1\<lparr>innerHTML := ''<strong>'' @ template (userData_name intersected) @
                                        ''</strong><br>'' @ template (userData_funFact intersected)\<rparr>;
                  t3 = set_style ''left'' (number_to_string lib (js_add clientX (num 10)) @ ''px'') t2;
                  t4 = set_style ''top'' (number_to_string lib (js_add clientY (num 10)) @ ''px'') t3
              in st1\<lparr>tooltip := t4\<rparr>)
         | [] \<Rightarrow> st1\<lparr>tooltip := set_style ''display'' ''none'' (tooltip st1)\<rparr>)"

section \<open>The overlay and its timers\<close>

definition new_gifOverlay :: dom_element where
  "new_gifOverlay =
     \<lparr>style = [(''position'', ''fixed''), (''top'', ''50%''), (''left'', ''50%''),
               (''transform'', ''translate(-50%, -50%)''), (''zIndex'', ''10000''),
               (''backgroundColor'', ''rgba(0, 0, 0, 0.8)''), (''padding'', ''10px''),
               (''borderRadius'', ''8px'')],
      innerHTML = []\<rparr>"

text \<open>
  \<^verbatim>\<open>showGifOverlay\<close>: the element is created at the first call and found by its id
  afterwards; it is shown, and \<^verbatim>\<open>setTimeout\<close> registers one more callback, due 5000
  milliseconds from now. The handle \<^verbatim>\<open>setTimeout\<close> returns is dropped.
\<close>

definition showGifOverlay :: "app_state \<Rightarrow> app_state" where
  "showGifOverlay st =
     (let el = (case gifOverlay st of None \<Rightarrow> new_gifOverlay | Some e \<Rightarrow> e);
          el1 = el\<lparr>innerHTML := ''<img src=\"https://media.giphy.com/media/oImOwaZ34b8K70aQ6B/giphy.gif\" style=\"max-width:100%; max-height:80vh;\" alt=\"Mars GIF\" />''\<rparr>;
          el2 = set_style ''display'' ''block'' el1
      in st\<lparr>gifOverlay := Some el2, timers := timers st @ [now st + 5000]\<rparr>)"

text \<open>The callback of the timer: \<^verbatim>\<open>gifOverlay.style.display = "none"\<close>.\<close>

definition hide_gifOverlay :: "app_state \<Rightarrow> app_state" where
  "hide_gifOverlay st = st\<lparr>gifOverlay := map_option (set_style ''display'' ''none'') (gifOverlay st)\<rparr>"

text \<open>
  Time passes: the clock moves on by \<open>ms\<close> milliseconds, and every callback that has
  come due runs, once, and is no longer pending.
\<close>

definition elapse :: "nat \<Rightarrow> app_state \<Rightarrow> app_state" where
  "elapse ms st =
     (let t = now st + ms;
          due = filter (\<lambda>d. d \<le> t) (timers st);
          st1 = st\<lparr>now := t, timers := filter (\<lambda>d. \<not> d \<le> t) (timers st)\<rparr>
      in foldl (\<lambda>s d. hide_gifOverlay s) st1 due)"

definition overlay_visible :: "app_state \<Rightarrow> bool" where
  "overlay_visible st =
     (case gifOverlay st of None \<Rightarrow> False | Some el \<Rightarrow> get_style ''display'' el = Some ''block'')"

definition onClick :: "three_lib \<Rightarrow> js_number \<Rightarrow> js_number \<Rightarrow> app_state \<Rightarrow> app_state" where
  "onClick lib clientX clientY st =
     (let (intersects, st1) = pointer_intersects lib clientX clientY st
      in case intersects of
           i # _ \<Rightarrow>
             if userData_name (objects st1 ! object i) = Some ''Mars'' then showGifOverlay st1
             else st1
         | [] \<Rightarrow> st1)"

section \<open>Events\<close>

definition onMouseDown :: "app_state \<Rightarrow> app_state" where
  "onMouseDown st = st\<lparr>animationActive := False\<rparr>"

definition onMouseUp :: "app_state \<Rightarrow> app_state" where
  "onMouseUp st = st\<lparr>animationActive := True\<rparr>"

definition onResize :: "js_number \<Rightarrow> js_number \<Rightarrow> app_state \<Rightarrow> app_state" where
  "onResize w h st =
     (let st1 = st\<lparr>innerWidth := w, innerHeight := h\<rparr>
      in st1\<lparr>camera := (camera st1)\<lparr>aspect := js_div (innerWidth st1) (innerHeight st1)\<rparr>\<rparr>)"

text \<open>
  \<^verbatim>\<open>animate\<close>, for the delta the clock reports: the orbits advance, then the orbit
  controls update the camera; rendering changes nothing the program reads.
\<close>

definition animate :: "three_lib \<Rightarrow> js_number \<Rightarrow> app_state \<Rightarrow> app_state" where
  "animate lib delta st =
     (let st1 = advance delta st
      in st1\<lparr>camera := controls_update lib (camera st1)\<rparr>)"

text \<open>
  Everything that can happen to the page once the script has run: the five events it
  listens to, a frame, and the passing of time.
\<close>

datatype event =
    MouseDown
  | MouseUp
  | MouseMove js_number js_number
  | Click js_number js_number
  | Resize js_number js_number
  | Frame js_number
  | Elapse nat

fun dispatch :: "three_lib \<Rightarrow> app_state \<Rightarrow> event \<Rightarrow> app_state" where
  "dispatch lib st MouseDown = onMouseDown st"
| "dispatch lib st MouseUp = onMouseUp st"
| "dispatch lib st (MouseMove clientX clientY) = onMouseMove lib clientX clientY st"
| "dispatch lib st (Click clientX clientY) = onClick lib clientX clientY st"
| "dispatch lib st (Resize w h) = onResize w h st"
| "dispatch lib st (Frame delta) = animate lib delta st"
| "dispatch lib st (Elapse ms) = elapse ms st"

definition run :: "three_lib \<Rightarrow> app_state \<Rightarrow> event list \<Rightarrow> app_state" where
  "run lib st evs = foldl (dispatch lib) st evs"

section \<open>The vocabulary of the properties\<close>

text \<open>The two states of the animation; \<^verbatim>\<open>animationActive\<close> tells which one it is in.\<close>

datatype pause_state = Running | Paused

definition pause_state_of :: "app_state \<Rightarrow> pause_state" where
  "pause_state_of st = (if animationActive st then Running else Paused)"

text \<open>Two objects that differ at most in the rotation about the vertical axis.\<close>

definition same_but_y :: "object3d \<Rightarrow> object3d \<Rightarrow> bool" where
  "same_but_y ob' ob =
     (ob'\<lparr>rotation := (rotation ob')\<lparr>euler_y := euler_y (rotation ob)\<rparr>\<rparr> = ob)"

text \<open>
  What \<^verbatim>\<open>build_planet\<close> leaves in the store for an entry, when the store held \<open>n\<close>
  objects before: the planet's mesh, its orbit group, the moon's mesh and orbit group,
  and the ring.
\<close>

definition planet_mesh :: "planet_data \<Rightarrow> nat \<Rightarrow> object3d" where
  "planet_mesh e n =
     \<lparr>kind = Mesh (SphereGeometry (planetRadius e) 32 32) (planet_material e),
      position = \<lparr>vec_x = orbitRadius e, vec_y = Finite 0, vec_z = Finite 0\<rparr>,
      rotation = \<lparr>euler_x = Finite 0, euler_y = Finite 0, euler_z = Finite 0\<rparr>,
      children = (if hasMoon e then [n + 3] else []) @
                 (if hasRings e then [n + 2 + (if hasMoon e then 2 else 0)] else []),
      userData = Some (UserData (name e) (funFact e))\<rparr>"

definition moon_objects :: "nat \<Rightarrow> object3d list" where
  "moon_objects n =
     [(new_object3d (Mesh (SphereGeometry (num (27 / 100)) 32 32)
          (MeshStandardMaterial_map ''https://threejs.org/examples/textures/moon_1024.jpg'')))
        \<lparr>position := \<lparr>vec_x = num 2, vec_y = Finite 0, vec_z = Finite 0\<rparr>\<rparr>,
      (new_object3d Object3D)\<lparr>children := [n + 2]\<rparr>]"

definition ring_mesh :: "planet_data \<Rightarrow> object3d" where
  "ring_mesh e =
     (new_object3d
        (Mesh (RingGeometry (js_mul (planetRadius e) (num (12 / 10)))
                 (js_mul (planetRadius e) (num (18 / 10))) 32)
           (MeshBasicMaterial 0x8d6e63 True True (num (7 / 10)))))
       \<lparr>rotation := \<lparr>euler_x = js_div Math_PI (num 2), euler_y = Finite 0, euler_z = Finite 0\<rparr>\<rparr>"

definition built_objects :: "planet_data \<Rightarrow> nat \<Rightarrow> object3d list" where
  "built_objects e n =
     [planet_mesh e n, (new_object3d Object3D)\<lparr>children := [n]\<rparr>] @
     (if hasMoon e then moon_objects n else []) @ (if hasRings e then [ring_mesh e] else [])"

text \<open>What a whole catalog adds to the store, to the registry and to the animation list.\<close>

fun built_all :: "planet_data list \<Rightarrow> nat \<Rightarrow> object3d list" where
  "built_all [] n = []"
| "built_all (e # cat) n = built_objects e n @ built_all cat (n + length (built_objects e n))"

fun planet_refs :: "planet_data list \<Rightarrow> nat \<Rightarrow> nat list" where
  "planet_refs [] n = []"
| "planet_refs (e # cat) n = n # planet_refs cat (n + length (built_objects e n))"

fun orbit_items :: "planet_data list \<Rightarrow> nat \<Rightarrow> orbit_item list" where
  "orbit_items [] n = []"
| "orbit_items (e # cat) n =
     \<lparr>group = n + 1, speed = rotationSpeed e\<rparr> #
     (if hasMoon e then [\<lparr>group = n + 3, speed = num (5 / 100)\<rparr>] else []) @
     orbit_items cat (n + length (built_objects e n))"

text \<open>An object that is a mesh, whatever its geometry and material.\<close>

definition is_mesh :: "object3d \<Rightarrow> bool" where
  "is_mesh ob = (case kind ob of Mesh g m \<Rightarrow> True | _ \<Rightarrow> False)"

text \<open>
  The entries the specification's data model excludes: an orbit radius or a body radius
  that is not positive, or a negative rotation speed.
\<close>

definition positive :: "js_number \<Rightarrow> bool" where
  "positive a = (js_le (Finite 0) a \<and> a \<noteq> Finite 0)"

definition malformed :: "planet_data \<Rightarrow> bool" where
  "malformed e =
     (\<not> (positive (orbitRadius e) \<and> positive (planetRadius e) \<and>
         js_le (Finite 0) (rotationSpeed e)))"

text \<open>An entry with a negative body radius.\<close>

definition negative_radius_entry :: planet_data where
  "negative_radius_entry =
     \<lparr>name = ''Vulcan'', orbitRadius = Finite 5, planetRadius = Finite (- 1),
      color = Some 0, rotationSpeed = Finite 0, texture = None, funFact = [],
      hasMoon = False, hasRings = False\<rparr>"

text \<open>
  The specification's pointer state: the pointer position in normalized device
  coordinates, \<open>x\<close> running from \<open>-1\<close> at the left edge of the window to \<open>1\<close> at the
  right edge, \<open>y\<close> from \<open>1\<close> at the top to \<open>-1\<close> at the bottom.
\<close>

definition normalized_pointer :: "js_number \<Rightarrow> js_number \<Rightarrow> app_state \<Rightarrow> vector2" where
  "normalized_pointer clientX clientY st =
     \<lparr>vec2_x = js_sub (js_mul (js_div clientX (innerWidth st)) (num 2)) (num 1),
      vec2_y = js_add (js_mul (js_neg (js_div clientY (innerHeight st))) (num 2)) (num 1)\<rparr>"

text \<open>
  The pointer ray: the ray from the camera of the state through the normalized pointer
  position. It is defined from the pointer, the window and the camera alone, not from
  what a handler leaves in the ray caster.
\<close>

definition pointer_ray :: "three_lib \<Rightarrow> js_number \<Rightarrow> js_number \<Rightarrow> app_state \<Rightarrow> ray" where
  "pointer_ray lib clientX clientY st =
     setFromCamera lib (normalized_pointer clientX clientY st) (camera st)"

text \<open>
  The ray parameters at which the pointer ray meets the object \<open>t\<close>, as the ray
  caster's geometry reports them.
\<close>

definition hits :: "three_lib \<Rightarrow> js_number \<Rightarrow> js_number \<Rightarrow> app_state \<Rightarrow> nat \<Rightarrow> real list" where
  "hits lib clientX clientY st t =
     raycast lib (pointer_ray lib clientX clientY st) (objects st) t"

text \<open>
  A library for the examples: whatever the pointer, the ray meets Mars (object 12) at
  ray parameter 5 and the Earth (object 8) at 7 and 9, and nothing else.
\<close>

definition test_lib :: three_lib where
  "test_lib =
     \<lparr>setFromCamera =
        (\<lambda>m c. \<lparr>origin = camera_position c,
                 direction = \<lparr>vec_x = vec2_x m, vec_y = vec2_y m, vec_z = Finite (- 1)\<rparr>\<rparr>),
      raycast = (\<lambda>r objs t. if t = 12 then [5] else if t = 8 then [7, 9] else []),
      controls_update = (\<lambda>c. c),
      number_to_string = (\<lambda>n. ''0'')\<rparr>"

text \<open>The page as the script leaves it in a window of 800 by 600 pixels.\<close>

definition page :: app_state where
  "page = startup (Finite 800) (Finite 600)"

section \<open>The vocabulary of rounding and of rotation\<close>

text \<open>
  The rounding of \<^verbatim>\<open>round_double\<close>, taken apart. A magnitude \<open>y\<close>, counted in units of
  \<open>1 / 2 ^ 1074\<close>, is rounded to a multiple of \<open>2 ^ ulp_shift y\<close>: the spacing of the doubles
  around it.
\<close>

definition ulp_shift :: "real \<Rightarrow> nat" where
  "ulp_shift y = bitlen (nat \<lfloor>y\<rfloor>) - 53"

definition round_units :: "real \<Rightarrow> real" where
  "round_units y = of_int (round_half_even (y / 2 ^ ulp_shift y)) * 2 ^ ulp_shift y"

text \<open>
  The number of units in 1, and the least magnitude that overflows to infinity.
\<close>

definition unit_scale :: real where
  "unit_scale = 2 ^ 1074"

definition overflow_bound :: real where
  "overflow_bound = 2 ^ 1024"

text \<open>
  The magnitude of the double nearest to \<open>q\<close>, before the overflow test.
\<close>

definition magnitude :: "real \<Rightarrow> real" where
  "magnitude q = round_units (\<bar>q\<bar> * unit_scale) / unit_scale"

text \<open>
  A count of units that a double can hold: a multiple of the spacing at its size.
\<close>

definition on_grid :: "nat \<Rightarrow> bool" where
  "on_grid n = (2 ^ (bitlen n - 53) dvd n)"

text \<open>
  The rotation angle of the object \<open>r\<close> of the store, about its vertical axis.
\<close>

definition rotation_y :: "app_state \<Rightarrow> nat \<Rightarrow> js_number" where
  "rotation_y st r = euler_y (rotation (objects st ! r))"

text \<open>
  The angles a rotation reaches from zero by increments that are not negative: a double,
  or \<open>+\<infinity>\<close>.
\<close>

definition valid_angle :: "js_number \<Rightarrow> bool" where
  "valid_angle a =
     (case a of Finite q \<Rightarrow> is_double q | PosInf \<Rightarrow> True | NegInf \<Rightarrow> False | NaN \<Rightarrow> False)"

text \<open>
  A finite number that is not negative; one that is positive.
\<close>

definition nonneg_finite :: "js_number \<Rightarrow> bool" where
  "nonneg_finite a = (is_finite a \<and> js_le (Finite 0) a)"

definition positive_finite :: "js_number \<Rightarrow> bool" where
  "positive_finite a = (nonneg_finite a \<and> a \<noteq> Finite 0)"

text \<open>
  An increment: \<open>+\<infinity>\<close>, or finite and not negative.
\<close>

definition increment :: "js_number \<Rightarrow> bool" where
  "increment a = (case a of Finite v \<Rightarrow> 0 \<le> v | PosInf \<Rightarrow> True | NegInf \<Rightarrow> False | NaN \<Rightarrow> False)"

text \<open>
  An event that is not a frame with a negative or undefined time step.
\<close>

fun nonneg_frame :: "event \<Rightarrow> bool" where
  "nonneg_frame (Frame delta) = js_le (Finite 0) delta"
| "nonneg_frame ev = True"





section \<open>What the operations leave alone\<close>



lemma modify_fields [simp]:
  "planetOrbits (modify r f st) = planetOrbits st"
  "hoverablePlanets (modify r f st) = hoverablePlanets st"
  "animationActive (modify r f st) = animationActive st"
  "camera (modify r f st) = camera st"
  "mouse (modify r f st) = mouse st"
  "raycaster_ray (modify r f st) = raycaster_ray st"
  "innerWidth (modify r f st) = innerWidth st"
  "innerHeight (modify r f st) = innerHeight st"
  "tooltip (modify r f st) = tooltip st"
  "gifOverlay (modify r f st) = gifOverlay st"
  "timers (modify r f st) = timers st"
  "now (modify r f st) = now st"
  "length (objects (modify r f st)) = length (objects st)"
  by (simp_all add: modify_def)

lemma modify_objects: "objects (modify r f st) = (objects st)[r := f (objects st ! r)]"
  by (simp add: modify_def)

lemma modify_eq: "modify r f st = st\<lparr>objects := objects (modify r f st)\<rparr>"
  by (simp add: modify_def)

lemma rotate_item_eq: "rotate_item d st item = st\<lparr>objects := objects (rotate_item d st item)\<rparr>"
  unfolding rotate_item_def by (rule modify_eq)

lemma foldl_rotate_eq:
  "foldl (rotate_item d) st items = st\<lparr>objects := objects (foldl (rotate_item d) st items)\<rparr>"
proof (induction items arbitrary: st)
  case Nil
  show ?case by simp
next
  case (Cons item items)
  have "foldl (rotate_item d) (rotate_item d st item) items =
        (rotate_item d st item)\<lparr>objects := objects (foldl (rotate_item d) (rotate_item d st item) items)\<rparr>"
    by (rule Cons.IH)
  also have "\<dots> = st\<lparr>objects := objects (foldl (rotate_item d) (rotate_item d st item) items)\<rparr>"
    by (subst rotate_item_eq) simp
  finally show ?case by simp
qed

lemma advance_eq: "advance d st = st\<lparr>objects := objects (advance d st)\<rparr>"
  unfolding advance_def using foldl_rotate_eq [of d st "planetOrbits st"] by simp

lemma advance_paused: "\<not> animationActive st \<Longrightarrow> advance d st = st"
  by (simp add: advance_def)

lemma advances_paused:
  "\<not> animationActive st \<Longrightarrow> foldl (\<lambda>s d. advance d s) st deltas = st"
  by (induction deltas) (simp_all add: advance_paused)


lemma same_but_y_refl: "same_but_y ob ob"
  by (simp add: same_but_y_def)

lemma same_but_y_trans: "same_but_y a b \<Longrightarrow> same_but_y b c \<Longrightarrow> same_but_y a c"
  unfolding same_but_y_def
  by (cases a, cases b, cases c, cases "rotation a", cases "rotation b", cases "rotation c") auto

lemma same_but_y_set: "same_but_y (ob\<lparr>rotation := (rotation ob)\<lparr>euler_y := v\<rparr>\<rparr>) ob"
  by (simp add: same_but_y_def)

lemma rotate_item_nth:
  "r < length (objects st) \<Longrightarrow> same_but_y (objects (rotate_item d st item) ! r) (objects st ! r)"
  by (cases "r = group item")
     (simp_all add: rotate_item_def modify_objects same_but_y_set same_but_y_refl)

lemma rotate_item_length [simp]: "length (objects (rotate_item d st item)) = length (objects st)"
  by (simp add: rotate_item_def)

lemma rotate_item_other:
  "r \<noteq> group item \<Longrightarrow> objects (rotate_item d st item) ! r = objects st ! r"
  by (simp add: rotate_item_def modify_objects)

lemma foldl_rotate_length [simp]:
  "length (objects (foldl (rotate_item d) st items)) = length (objects st)"
  by (induction items arbitrary: st) simp_all

lemma foldl_rotate_nth:
  "r < length (objects st) \<Longrightarrow>
   same_but_y (objects (foldl (rotate_item d) st items) ! r) (objects st ! r)"
proof (induction items arbitrary: st)
  case Nil
  show ?case by (simp add: same_but_y_refl)
next
  case (Cons item items)
  have "r < length (objects (rotate_item d st item))" using Cons.prems by simp
  then have "same_but_y (objects (foldl (rotate_item d) (rotate_item d st item) items) ! r)
               (objects (rotate_item d st item) ! r)"
    by (rule Cons.IH)
  then show ?case
    using rotate_item_nth [OF Cons.prems, of d item] by (auto intro: same_but_y_trans)
qed

lemma foldl_rotate_other:
  "r \<notin> group ` set items \<Longrightarrow> objects (foldl (rotate_item d) st items) ! r = objects st ! r"
  by (induction items arbitrary: st) (simp_all add: rotate_item_other)

lemma pointer_intersects_active [simp]:
  "animationActive (snd (pointer_intersects lib cx cy st)) = animationActive st"
  by (simp add: pointer_intersects_def Let_def)

lemma showGifOverlay_active [simp]: "animationActive (showGifOverlay st) = animationActive st"
  by (simp add: showGifOverlay_def Let_def)

lemma onMouseMove_active [simp]: "animationActive (onMouseMove lib cx cy st) = animationActive st"
  by (simp add: onMouseMove_def Let_def pointer_intersects_def split: list.split)

lemma onClick_active [simp]: "animationActive (onClick lib cx cy st) = animationActive st"
  by (simp add: onClick_def Let_def pointer_intersects_def split: list.split)

lemma onResize_active [simp]: "animationActive (onResize w h st) = animationActive st"
  by (simp add: onResize_def Let_def)

lemma advance_active [simp]: "animationActive (advance d st) = animationActive st"
  by (subst advance_eq) simp

lemma animate_active [simp]: "animationActive (animate lib d st) = animationActive st"
  by (simp add: animate_def Let_def)

lemma foldl_hide_active [simp]:
  "animationActive (foldl (\<lambda>s d. hide_gifOverlay s) st due) = animationActive st"
  by (induction due arbitrary: st) (simp_all add: hide_gifOverlay_def)

lemma elapse_active [simp]: "animationActive (elapse ms st) = animationActive st"
  by (simp add: elapse_def Let_def)

lemma alloc_active [simp]: "animationActive (snd (alloc ob st)) = animationActive st"
  by (simp add: alloc_def)

lemma add_active [simp]: "animationActive (add p c st) = animationActive st"
  by (simp add: add_def)

lemma build_planet_active [simp]: "animationActive (build_planet st e) = animationActive st"
  by (simp add: build_planet_def createPlanetOrbit_def add_moon_def add_rings_def Let_def
      split_def)

lemma buildSystem_active [simp]: "animationActive (buildSystem cat st) = animationActive st"
  unfolding buildSystem_def by (induction cat arbitrary: st) simp_all

lemma init_scene_active [simp]: "animationActive (init_scene w h)"
  by (simp add: init_scene_def Let_def split_def)

section \<open>The graph the builder produces\<close>


lemma alloc_simps [simp]:
  "fst (alloc ob st) = length (objects st)"
  "objects (snd (alloc ob st)) = objects st @ [ob]"
  "planetOrbits (snd (alloc ob st)) = planetOrbits st"
  "hoverablePlanets (snd (alloc ob st)) = hoverablePlanets st"
  by (simp_all add: alloc_def)

lemma add_simps [simp]:
  "planetOrbits (add p c st) = planetOrbits st"
  "hoverablePlanets (add p c st) = hoverablePlanets st"
  "length (objects (add p c st)) = length (objects st)"
  by (simp_all add: add_def)

lemma build_planet_hoverable:
  "hoverablePlanets (build_planet st e) = hoverablePlanets st @ [length (objects st)]"
  by (simp add: build_planet_def createPlanetOrbit_def add_moon_def add_rings_def Let_def
      split_def)

lemma build_planet_orbits:
  "planetOrbits (build_planet st e) =
     planetOrbits st @ \<lparr>group = length (objects st) + 1, speed = rotationSpeed e\<rparr> #
       (if hasMoon e then [\<lparr>group = length (objects st) + 3, speed = num (5 / 100)\<rparr>] else [])"
  by (simp add: build_planet_def createPlanetOrbit_def add_moon_def add_rings_def Let_def
      split_def)

lemma build_planet_length:
  "length (objects (build_planet st e)) =
     length (objects st) + 2 + (if hasMoon e then 2 else 0) + (if hasRings e then 1 else 0)"
  by (simp add: build_planet_def createPlanetOrbit_def add_moon_def add_rings_def Let_def
      split_def)






lemma createPlanetOrbit_fst [simp]: "fst (createPlanetOrbit R pm st) = length (objects st)"
  by (simp add: createPlanetOrbit_def Let_def split_def)

lemma createPlanetOrbit_objects:
  assumes "objects st = sc # rest @ [m]"
  shows "objects (snd (createPlanetOrbit R (Suc (length rest)) st)) =
           sc\<lparr>children := children sc @ [length rest + 2]\<rparr> # rest @
           [position_set R (Finite 0) (Finite 0) m,
            (new_object3d Object3D)\<lparr>children := [Suc (length rest)]\<rparr>]"
proof -
  have a: "objects (snd (alloc (new_object3d Object3D) st)) =
             (sc # rest) @ m # [new_object3d Object3D]"
    using assms by simp
  show ?thesis
    unfolding createPlanetOrbit_def Let_def split_def add_def scene_def
    by (simp add: modify_objects a assms nth_append new_object3d_def list_update_append)
qed

lemma add_moon_objects:
  assumes "objects st = pre @ [pm, og]"
  shows "objects (add_moon (length pre) st) =
           pre @ [pm\<lparr>children := children pm @ [length pre + 3]\<rparr>, og] @
           moon_objects (length pre)"
  unfolding add_moon_def Let_def split_def add_def
  by (simp add: modify_objects assms nth_append moon_objects_def position_set_def
      new_object3d_def list_update_append)

lemma add_rings_objects:
  assumes "objects st = pre @ pm # post"
  shows "objects (add_rings e (length pre) st) =
           pre @ pm\<lparr>children := children pm @ [length pre + 1 + length post]\<rparr> # post @
           [ring_mesh e]"
  unfolding add_rings_def Let_def split_def add_def
  by (simp add: modify_objects assms nth_append ring_mesh_def
      new_object3d_def list_update_append)


lemma build_planet_objects:
  assumes "objects st = sc # rest"
  shows "objects (build_planet st e) =
           sc\<lparr>children := children sc @ [length (objects st) + 1]\<rparr> # rest @
           built_objects e (length (objects st))"
proof -
  define M where "M = (new_object3d
                     (Mesh (SphereGeometry (planetRadius e) 32 32)
                        (planet_material e)))
                   \<lparr>userData := Some (UserData (name e) (funFact e))\<rparr>"
  define n where "n = Suc (length rest)"
  define st2 where "st2 = (snd (alloc M st))\<lparr>hoverablePlanets := hoverablePlanets st @ [n]\<rparr>"
  define st3 where "st3 = snd (createPlanetOrbit (orbitRadius e) n st2)"
  define st4 where "st4 = st3\<lparr>planetOrbits := planetOrbits st3 @
                       [\<lparr>group = Suc n, speed = rotationSpeed e\<rparr>]\<rparr>"
  define st5 where "st5 = (if hasMoon e then add_moon n st4 else st4)"
  define sc' where "sc' = sc\<lparr>children := children sc @ [n + 1]\<rparr>"
  define P where "P = position_set (orbitRadius e) (Finite 0) (Finite 0) M"
  define G where "G = (new_object3d Object3D)\<lparr>children := [n]\<rparr>"
  have len: "length (objects st) = n" by (simp add: assms n_def)
  have o2: "objects st2 = sc # rest @ [M]" by (simp add: st2_def assms)
  have len2: "length (objects st2) = Suc n" by (simp add: o2 n_def)
  have o3: "objects st3 = sc' # rest @ [P, G]"
    unfolding st3_def n_def using createPlanetOrbit_objects [OF o2, of "orbitRadius e"]
    by (simp add: sc'_def P_def G_def n_def)
  have o4: "objects st4 = (sc' # rest) @ [P, G]" by (simp add: st4_def o3)
  have l4: "length (sc' # rest) = n" by (simp add: n_def)
  have bp: "build_planet st e = (if hasRings e then add_rings e n st5 else st5)"
    by (simp add: build_planet_def Let_def split_def st5_def st4_def st3_def st2_def M_def len len2)
  have o5: "objects st5 = (sc' # rest) @
              P\<lparr>children := children P @ (if hasMoon e then [n + 3] else [])\<rparr> #
              (G # (if hasMoon e then moon_objects n else []))"
  proof (cases "hasMoon e")
    case True
    have "objects (add_moon n st4) =
            (sc' # rest) @ [P\<lparr>children := children P @ [n + 3]\<rparr>, G] @ moon_objects n"
      using add_moon_objects [OF o4] unfolding l4 .
    then show ?thesis using True by (simp add: st5_def)
  next
    case False
    then show ?thesis by (simp add: st5_def o4)
  qed
  have o6: "objects (build_planet st e) = (sc' # rest) @
              P\<lparr>children := children P @ (if hasMoon e then [n + 3] else []) @
                 (if hasRings e then [n + 2 + (if hasMoon e then 2 else 0)] else [])\<rparr> #
              (G # (if hasMoon e then moon_objects n else [])) @
              (if hasRings e then [ring_mesh e] else [])"
  proof (cases "hasRings e")
    case True
    have "objects (add_rings e n st5) = (sc' # rest) @
            P\<lparr>children := children P @ (if hasMoon e then [n + 3] else [])\<rparr>
             \<lparr>children := children (P\<lparr>children := children P @ (if hasMoon e then [n + 3] else [])\<rparr>) @
                [n + 1 + length (G # (if hasMoon e then moon_objects n else []))]\<rparr> #
            (G # (if hasMoon e then moon_objects n else [])) @ [ring_mesh e]"
      using add_rings_objects [OF o5, of e] unfolding l4 .
    then show ?thesis using True by (simp add: bp moon_objects_def)
  next
    case False
    then show ?thesis by (simp add: bp o5)
  qed
  have pm: "P\<lparr>children := children P @ (if hasMoon e then [n + 3] else []) @
                 (if hasRings e then [n + 2 + (if hasMoon e then 2 else 0)] else [])\<rparr> =
            planet_mesh e n"
    by (simp add: P_def M_def planet_mesh_def position_set_def new_object3d_def)
  show ?thesis
    unfolding o6 pm by (simp add: len sc'_def G_def built_objects_def)
qed







lemma length_built_objects:
  "length (built_objects e n) = 2 + (if hasMoon e then 2 else 0) + (if hasRings e then 1 else 0)"
  by (simp add: built_objects_def moon_objects_def)

lemma build_planet_length':
  "length (objects (build_planet st e)) = length (objects st) + length (built_objects e n)"
  by (simp add: build_planet_length length_built_objects)

lemma buildSystem_hoverable:
  "hoverablePlanets (buildSystem cat st) =
     hoverablePlanets st @ planet_refs cat (length (objects st))"
  unfolding buildSystem_def
proof (induction cat arbitrary: st)
  case Nil
  show ?case by simp
next
  case (Cons e cat)
  show ?case
    by (simp add: Cons.IH build_planet_hoverable
        build_planet_length' [of st e "length (objects st)"])
qed

lemma buildSystem_orbits:
  "planetOrbits (buildSystem cat st) =
     planetOrbits st @ orbit_items cat (length (objects st))"
  unfolding buildSystem_def
proof (induction cat arbitrary: st)
  case Nil
  show ?case by simp
next
  case (Cons e cat)
  show ?case
    by (simp add: Cons.IH build_planet_orbits
        build_planet_length' [of st e "length (objects st)"])
qed

lemma buildSystem_objects:
  "objects st = sc # rest \<Longrightarrow>
   objects (buildSystem cat st) =
     sc\<lparr>children := children sc @ map Suc (planet_refs cat (length (objects st)))\<rparr> #
     rest @ built_all cat (length (objects st))"
  unfolding buildSystem_def
proof (induction cat arbitrary: st sc rest)
  case Nil
  then show ?case by simp
next
  case (Cons e cat)
  have o: "objects (build_planet st e) =
             sc\<lparr>children := children sc @ [length (objects st) + 1]\<rparr> #
             (rest @ built_objects e (length (objects st)))"
    using build_planet_objects [OF Cons.prems] by simp
  show ?case
    using Cons.IH [OF o]
    by (simp add: build_planet_length' [of st e "length (objects st)"])
qed


lemma init_scene_objects:
  "objects (init_scene w h) =
     [(new_object3d Scene)\<lparr>children := [1, 2, 3]\<rparr>,
      new_object3d (AmbientLight 0x404040 (num 2)),
      (new_object3d (DirectionalLight 0xffffff (num 2)))
        \<lparr>position := \<lparr>vec_x = num 50, vec_y = num 50, vec_z = num 50\<rparr>\<rparr>,
      new_object3d (Mesh (SphereGeometry (num 4) 32 32)
                     (MeshBasicMaterial 0xffff00 False False (num 1)))]"
  by (simp add: init_scene_def Let_def split_def alloc_def add_def modify_def scene_def
      position_set_def new_object3d_def)

lemma init_scene_lists [simp]:
  "planetOrbits (init_scene w h) = []" "hoverablePlanets (init_scene w h) = []"
  by (simp_all add: init_scene_def Let_def split_def)

lemma init_scene_length: "length (objects (init_scene w h)) = 4"
  by (simp add: init_scene_objects)

lemma planet_refs_stock: "planet_refs planetsData 4 = [4, 6, 8, 12, 14, 16, 19, 21]"
  by (simp add: planetsData_def length_built_objects)

lemma startup_hoverable: "hoverablePlanets (startup w h) = [4, 6, 8, 12, 14, 16, 19, 21]"
  by (simp add: startup_def buildSystem_hoverable init_scene_length planet_refs_stock)

lemma startup_orbits:
  "planetOrbits (startup w h) =
    [\<lparr>group = 5, speed = num (2 / 100)\<rparr>, \<lparr>group = 7, speed = num (15 / 1000)\<rparr>,
     \<lparr>group = 9, speed = num (1 / 100)\<rparr>, \<lparr>group = 11, speed = num (5 / 100)\<rparr>,
     \<lparr>group = 13, speed = num (8 / 1000)\<rparr>, \<lparr>group = 15, speed = num (5 / 1000)\<rparr>,
     \<lparr>group = 17, speed = num (3 / 1000)\<rparr>, \<lparr>group = 20, speed = num (2 / 1000)\<rparr>,
     \<lparr>group = 22, speed = num (1 / 1000)\<rparr>]"
  by (simp add: startup_def buildSystem_orbits init_scene_length planetsData_def
      length_built_objects)

lemma startup_objects:
  "objects (startup w h) =
     (new_object3d Scene)\<lparr>children := [1, 2, 3, 5, 7, 9, 13, 15, 17, 20, 22]\<rparr> #
     [new_object3d (AmbientLight 0x404040 (num 2)),
      (new_object3d (DirectionalLight 0xffffff (num 2)))
        \<lparr>position := \<lparr>vec_x = num 50, vec_y = num 50, vec_z = num 50\<rparr>\<rparr>,
      new_object3d (Mesh (SphereGeometry (num 4) 32 32)
                     (MeshBasicMaterial 0xffff00 False False (num 1)))] @
     built_all planetsData 4"
  unfolding startup_def
  using buildSystem_objects [OF init_scene_objects, of planetsData w h, unfolded init_scene_length]
  by (simp add: planet_refs_stock)

lemma startup_names:
  "map (\<lambda>r. userData_name (objects (startup w h) ! r)) (hoverablePlanets (startup w h)) =
     [Some ''Mercury'', Some ''Venus'', Some ''Earth'', Some ''Mars'', Some ''Jupiter'',
      Some ''Saturn'', Some ''Uranus'', Some ''Neptune'']"
  by (simp add: startup_hoverable startup_objects init_scene_objects planetsData_def
      length_built_objects built_objects_def planet_mesh_def moon_objects_def
      userData_name_def)

lemma startup_length: "length (objects (startup w h)) = 23"
  by (simp add: startup_objects planetsData_def length_built_objects)

lemma built_all_nth_kind:
  "length pre = n \<Longrightarrow>
   map (\<lambda>r. f ((pre @ built_all cat n) ! r)) (planet_refs cat n) =
   map (\<lambda>(e, r). f (planet_mesh e r)) (zip cat (planet_refs cat n))"
proof (induction cat arbitrary: pre n)
  case Nil
  show ?case by simp
next
  case (Cons e cat)
  let ?k = "length (built_objects e n)"
  have l: "length (pre @ built_objects e n) = n + ?k" using Cons.prems by simp
  have h: "(pre @ built_objects e n @ built_all cat (n + ?k)) ! n = planet_mesh e n"
    using Cons.prems by (simp add: nth_append built_objects_def)
  show ?case
    using Cons.IH [OF l] h by simp
qed

lemma map_fst_zip_fun:
  "length xs = length ys \<Longrightarrow> map (\<lambda>p. g (fst p)) (zip xs ys) = map g xs"
  by (induction xs ys rule: list_induct2) simp_all

lemma length_planet_refs [simp]: "length (planet_refs cat n) = length cat"
  by (induction cat arbitrary: n) simp_all

lemma length_orbit_items:
  "length (orbit_items cat n) = length cat + length (filter hasMoon cat)"
  by (induction cat arbitrary: n) simp_all

lemma buildSystem_registry_kinds:
  assumes "objects st = sc # rest"
  shows "map (\<lambda>r. kind (objects (buildSystem cat st) ! r)) (planet_refs cat (length (objects st))) =
         map (\<lambda>e. Mesh (SphereGeometry (planetRadius e) 32 32) (planet_material e)) cat"
proof -
  have l: "length (sc\<lparr>children := children sc @ map Suc (planet_refs cat (length (objects st)))\<rparr> # rest)
           = length (objects st)"
    by (simp add: assms)
  have "map (\<lambda>r. kind (objects (buildSystem cat st) ! r)) (planet_refs cat (length (objects st))) =
        map (\<lambda>(e, r). kind (planet_mesh e r)) (zip cat (planet_refs cat (length (objects st))))"
    using built_all_nth_kind [OF l, of kind cat]
    by (simp add: buildSystem_objects [OF assms])
  also have "\<dots> = map (\<lambda>e. Mesh (SphereGeometry (planetRadius e) 32 32) (planet_material e)) cat"
    using map_fst_zip_fun [of cat "planet_refs cat (length (objects st))"
        "\<lambda>e. Mesh (SphereGeometry (planetRadius e) 32 32) (planet_material e)"]
    by (simp add: planet_mesh_def split_def)
  finally show ?thesis .
qed

lemma malformed_negative_radius: "malformed negative_radius_entry"
  by (simp add: malformed_def negative_radius_entry_def positive_def)

section \<open>The overlay and its timers\<close>

lemma map_of_style_set [simp]: "map_of (style_set k v xs) k = Some v"
  by (induction xs) simp_all

lemma get_set_style [simp]: "get_style k (set_style k v el) = Some v"
  by (simp add: get_style_def set_style_def)

lemma showGifOverlay_fields [simp]:
  "timers (showGifOverlay st) = timers st @ [now st + 5000]"
  "now (showGifOverlay st) = now st"
  "objects (showGifOverlay st) = objects st"
  "hoverablePlanets (showGifOverlay st) = hoverablePlanets st"
  "planetOrbits (showGifOverlay st) = planetOrbits st"
  "camera (showGifOverlay st) = camera st"
  "innerWidth (showGifOverlay st) = innerWidth st"
  "innerHeight (showGifOverlay st) = innerHeight st"
  by (simp_all add: showGifOverlay_def Let_def)

lemma showGifOverlay_visible [simp]: "overlay_visible (showGifOverlay st)"
  by (simp add: showGifOverlay_def Let_def overlay_visible_def)

lemma hide_gifOverlay_fields [simp]:
  "timers (hide_gifOverlay st) = timers st"
  "now (hide_gifOverlay st) = now st"
  "objects (hide_gifOverlay st) = objects st"
  "hoverablePlanets (hide_gifOverlay st) = hoverablePlanets st"
  "planetOrbits (hide_gifOverlay st) = planetOrbits st"
  "camera (hide_gifOverlay st) = camera st"
  "innerWidth (hide_gifOverlay st) = innerWidth st"
  "innerHeight (hide_gifOverlay st) = innerHeight st"
  by (simp_all add: hide_gifOverlay_def)

lemma hide_gifOverlay_hidden [simp]: "\<not> overlay_visible (hide_gifOverlay st)"
  by (cases "gifOverlay st") (simp_all add: hide_gifOverlay_def overlay_visible_def)

lemma foldl_hide_fields [simp]:
  "timers (foldl (\<lambda>s d. hide_gifOverlay s) st due) = timers st"
  "now (foldl (\<lambda>s d. hide_gifOverlay s) st due) = now st"
  "objects (foldl (\<lambda>s d. hide_gifOverlay s) st due) = objects st"
  "hoverablePlanets (foldl (\<lambda>s d. hide_gifOverlay s) st due) = hoverablePlanets st"
  "planetOrbits (foldl (\<lambda>s d. hide_gifOverlay s) st due) = planetOrbits st"
  "camera (foldl (\<lambda>s d. hide_gifOverlay s) st due) = camera st"
  "innerWidth (foldl (\<lambda>s d. hide_gifOverlay s) st due) = innerWidth st"
  "innerHeight (foldl (\<lambda>s d. hide_gifOverlay s) st due) = innerHeight st"
  by (induction due arbitrary: st) simp_all

lemma foldl_hide_visible:
  "overlay_visible (foldl (\<lambda>s d. hide_gifOverlay s) st due) = (overlay_visible st \<and> due = [])"
proof (induction due rule: rev_induct)
  case Nil
  show ?case by simp
next
  case (snoc d due)
  show ?case by simp
qed

lemma elapse_fields [simp]:
  "timers (elapse ms st) = filter (\<lambda>d. now st + ms < d) (timers st)"
  "now (elapse ms st) = now st + ms"
  "objects (elapse ms st) = objects st"
  "hoverablePlanets (elapse ms st) = hoverablePlanets st"
  "planetOrbits (elapse ms st) = planetOrbits st"
  "camera (elapse ms st) = camera st"
  "innerWidth (elapse ms st) = innerWidth st"
  "innerHeight (elapse ms st) = innerHeight st"
  by (simp_all add: elapse_def Let_def not_le)

lemma elapse_visible:
  "overlay_visible (elapse ms st) =
     (overlay_visible st \<and> (\<forall>d \<in> set (timers st). now st + ms < d))"
proof -
  have "overlay_visible (st\<lparr>now := now st + ms,
          timers := filter (\<lambda>d. \<not> d \<le> now st + ms) (timers st)\<rparr>) = overlay_visible st"
    by (simp add: overlay_visible_def)
  then show ?thesis
    by (auto simp add: elapse_def Let_def foldl_hide_visible filter_empty_conv not_le)
qed

section \<open>Picking\<close>

lemma pointer_intersects_fields [simp]:
  "objects (snd (pointer_intersects lib cx cy st)) = objects st"
  "hoverablePlanets (snd (pointer_intersects lib cx cy st)) = hoverablePlanets st"
  "planetOrbits (snd (pointer_intersects lib cx cy st)) = planetOrbits st"
  "camera (snd (pointer_intersects lib cx cy st)) = camera st"
  "innerWidth (snd (pointer_intersects lib cx cy st)) = innerWidth st"
  "innerHeight (snd (pointer_intersects lib cx cy st)) = innerHeight st"
  "timers (snd (pointer_intersects lib cx cy st)) = timers st"
  "now (snd (pointer_intersects lib cx cy st)) = now st"
  "gifOverlay (snd (pointer_intersects lib cx cy st)) = gifOverlay st"
  by (simp_all add: pointer_intersects_def Let_def)

lemma pointer_intersects_mouse:
  "mouse (snd (pointer_intersects lib cx cy st)) = normalized_pointer cx cy st"
  by (simp add: pointer_intersects_def Let_def normalized_pointer_def)

lemma pointer_intersects_ray:
  "raycaster_ray (snd (pointer_intersects lib cx cy st)) = pointer_ray lib cx cy st"
proof -
  have "raycaster_ray (snd (pointer_intersects lib cx cy st)) =
          setFromCamera lib (mouse (snd (pointer_intersects lib cx cy st))) (camera st)"
    by (simp add: pointer_intersects_def Let_def)
  then show ?thesis
    by (simp add: pointer_intersects_mouse pointer_ray_def)
qed

lemma pointer_intersects_fst:
  "fst (pointer_intersects lib cx cy st) =
     sort_key distance
       (concat (map (\<lambda>t. map (\<lambda>d. \<lparr>distance = d, object = t\<rparr>) (hits lib cx cy st t))
          (hoverablePlanets st)))"
proof -
  have "fst (pointer_intersects lib cx cy st) =
          intersectObjects lib (raycaster_ray (snd (pointer_intersects lib cx cy st)))
            (objects st) (hoverablePlanets st)"
    by (simp add: pointer_intersects_def Let_def)
  then show ?thesis
    by (simp add: pointer_intersects_ray intersectObjects_def hits_def)
qed

lemma sort_key_Nil_iff [simp]: "sort_key f xs = [] \<longleftrightarrow> xs = []"
  by (metis length_sort length_0_conv)

lemma hd_sort_key_least:
  assumes "sort_key f xs = y # ys" and "x \<in> set xs"
  shows "f y \<le> f x"
proof -
  have "sorted (map f (y # ys))" using assms(1) sorted_sort_key [of f xs] by simp
  moreover have "x \<in> set (y # ys)" using assms by (metis set_sort)
  ultimately show ?thesis by auto
qed

lemma pick_None:
  "pick lib cx cy st = None \<longleftrightarrow> (\<forall>t \<in> set (hoverablePlanets st). hits lib cx cy st t = [])"
proof -
  let ?L = "concat (map (\<lambda>t. map (\<lambda>d. \<lparr>distance = d, object = t\<rparr>) (hits lib cx cy st t))
          (hoverablePlanets st))"
  have "pick lib cx cy st = None \<longleftrightarrow> fst (pointer_intersects lib cx cy st) = []"
    by (simp add: pick_def split: list.splits)
  also have "\<dots> \<longleftrightarrow> ?L = []" by (simp add: pointer_intersects_fst)
  also have "\<dots> \<longleftrightarrow> (\<forall>t \<in> set (hoverablePlanets st). hits lib cx cy st t = [])"
    by auto
  finally show ?thesis .
qed

lemma pick_Some:
  assumes "pick lib cx cy st = Some t"
  shows "t \<in> set (hoverablePlanets st) \<and>
         (\<exists>d \<in> set (hits lib cx cy st t).
            \<forall>t' \<in> set (hoverablePlanets st). \<forall>d' \<in> set (hits lib cx cy st t'). d \<le> d')"
proof -
  let ?L = "concat (map (\<lambda>t. map (\<lambda>d. \<lparr>distance = d, object = t\<rparr>) (hits lib cx cy st t))
          (hoverablePlanets st))"
  obtain i rest where s: "sort_key distance ?L = i # rest" and t: "t = object i"
  proof (cases "fst (pointer_intersects lib cx cy st)")
    case Nil
    then show ?thesis using assms by (simp add: pick_def)
  next
    case (Cons i rest)
    then have "t = object i" using assms by (simp add: pick_def)
    then show ?thesis using Cons that by (simp add: pointer_intersects_fst)
  qed
  have "i \<in> set ?L" using s by (metis list.set_intros(1) set_sort)
  then have m: "t \<in> set (hoverablePlanets st)" "distance i \<in> set (hits lib cx cy st t)"
    using t by auto
  have "\<forall>t' \<in> set (hoverablePlanets st). \<forall>d' \<in> set (hits lib cx cy st t'). distance i \<le> d'"
  proof (intro ballI)
    fix t' d' assume "t' \<in> set (hoverablePlanets st)" "d' \<in> set (hits lib cx cy st t')"
    then have "\<lparr>distance = d', object = t'\<rparr> \<in> set ?L" by auto
    from hd_sort_key_least [OF s this] show "distance i \<le> d'" by simp
  qed
  then show ?thesis using m by blast
qed

lemma same_but_y_static: "same_but_y a b \<Longrightarrow> kind a = kind b \<and> userData a = userData b"
  unfolding same_but_y_def by (cases a, cases b) auto

lemma advance_static:
  "map kind (objects (advance d st)) = map kind (objects st)"
  "map userData (objects (advance d st)) = map userData (objects st)"
  by (auto intro!: nth_equalityI
      simp add: advance_def same_but_y_static [OF foldl_rotate_nth])

lemma onMouseMove_fields [simp]:
  "objects (onMouseMove lib cx cy st) = objects st"
  "hoverablePlanets (onMouseMove lib cx cy st) = hoverablePlanets st"
  "camera (onMouseMove lib cx cy st) = camera st"
  "innerWidth (onMouseMove lib cx cy st) = innerWidth st"
  "innerHeight (onMouseMove lib cx cy st) = innerHeight st"
  by (simp_all add: onMouseMove_def Let_def split_def split: list.split)

lemma onClick_fields [simp]:
  "objects (onClick lib cx cy st) = objects st"
  "hoverablePlanets (onClick lib cx cy st) = hoverablePlanets st"
  "camera (onClick lib cx cy st) = camera st"
  "innerWidth (onClick lib cx cy st) = innerWidth st"
  "innerHeight (onClick lib cx cy st) = innerHeight st"
  by (simp_all add: onClick_def Let_def split_def split: list.split)

lemma dispatch_hoverable [simp]:
  "hoverablePlanets (dispatch lib st ev) = hoverablePlanets st"
proof (cases ev)
  case (Frame d)
  have "hoverablePlanets (advance d st) = hoverablePlanets st"
    by (subst advance_eq) simp
  then show ?thesis using Frame by (simp add: animate_def Let_def)
qed (simp_all add: onMouseDown_def onMouseUp_def onResize_def Let_def)

lemma dispatch_static:
  "map kind (objects (dispatch lib st ev)) = map kind (objects st)"
  "map userData (objects (dispatch lib st ev)) = map userData (objects st)"
  by (cases ev; simp add: onMouseDown_def onMouseUp_def onResize_def Let_def animate_def
      advance_static)+

lemma run_hoverable [simp]: "hoverablePlanets (run lib st evs) = hoverablePlanets st"
  unfolding run_def by (induction evs arbitrary: st) simp_all

lemma run_static:
  "map kind (objects (run lib st evs)) = map kind (objects st)"
  "map userData (objects (run lib st evs)) = map userData (objects st)"
  unfolding run_def by (induction evs arbitrary: st) (simp_all add: dispatch_static)

lemma run_userData:
  assumes "r < length (objects st)"
  shows "userData (objects (run lib st evs) ! r) = userData (objects st ! r)"
proof -
  have l: "length (objects (run lib st evs)) = length (objects st)"
    using run_static(2) [of lib st evs] by (metis length_map)
  have "map userData (objects (run lib st evs)) ! r = map userData (objects st) ! r"
    by (simp add: run_static)
  then show ?thesis using assms l by simp
qed

lemma map_of_style_set_other [simp]:
  "k \<noteq> k' \<Longrightarrow> map_of (style_set k' v xs) k = map_of xs k"
  by (induction xs) auto

lemma onMouseMove_pick:
  "get_style ''display'' (tooltip (onMouseMove lib cx cy st)) =
     Some (if pick lib cx cy st = None then ''none'' else ''block'')"
  by (simp add: onMouseMove_def pick_def Let_def split_def set_style_def get_style_def
      split: list.split)

lemma onClick_pick:
  "onClick lib cx cy st =
     (if \<exists>t. pick lib cx cy st = Some t \<and> userData_name (objects st ! t) = Some ''Mars''
      then showGifOverlay (snd (pointer_intersects lib cx cy st))
      else snd (pointer_intersects lib cx cy st))"
  by (simp add: onClick_def pick_def Let_def split_def split: list.split)

lemma build_planet_misc [simp]:
  "timers (build_planet st e) = timers st"
  "now (build_planet st e) = now st"
  "gifOverlay (build_planet st e) = gifOverlay st"
  by (simp_all add: build_planet_def createPlanetOrbit_def add_moon_def add_rings_def Let_def
      split_def alloc_def add_def modify_def)

lemma buildSystem_misc [simp]:
  "timers (buildSystem cat st) = timers st"
  "now (buildSystem cat st) = now st"
  "gifOverlay (buildSystem cat st) = gifOverlay st"
  unfolding buildSystem_def by (induction cat arbitrary: st) simp_all

lemma page_misc [simp]: "timers page = []" "now page = 0" "gifOverlay page = None"
  by (simp_all add: page_def startup_def) (simp_all add: init_scene_def Let_def split_def alloc_def add_def modify_def)

lemma page_hoverable: "hoverablePlanets page = [4, 6, 8, 12, 14, 16, 19, 21]"
  by (simp add: page_def startup_hoverable)

lemma page_mars: "userData_name (objects page ! 12) = Some ''Mars''"
  using startup_names [of "Finite 800" "Finite 600"] by (simp add: page_def startup_hoverable)

lemma hits_test_lib:
  "hits test_lib cx cy st t = (if t = 12 then [5] else if t = 8 then [7, 9] else [])"
  by (simp add: hits_def test_lib_def)

lemma pick_test_lib:
  "hoverablePlanets st = hoverablePlanets page \<Longrightarrow> pick test_lib cx cy st = Some 12"
  by (simp add: pick_def pointer_intersects_fst hits_test_lib page_hoverable)

lemma click_mars:
  "hoverablePlanets st = hoverablePlanets page \<Longrightarrow> objects st = objects page \<Longrightarrow>
   onClick test_lib cx cy st = showGifOverlay (snd (pointer_intersects test_lib cx cy st))"
  by (simp add: onClick_pick pick_test_lib page_mars)

section \<open>Rounding to double precision, and the rotation angles\<close>

lemma bitlen_le_iff: "bitlen n \<le> k \<longleftrightarrow> n < 2 ^ k"
proof (induction n arbitrary: k rule: bitlen.induct)
  case (1 n)
  show ?case
  proof (cases "n = 0")
    case True
    then show ?thesis by (simp add: bitlen.simps)
  next
    case False
    show ?thesis
    proof (cases k)
      case 0
      then show ?thesis using False by (simp add: bitlen.simps [of n])
    next
      case (Suc j)
      have "bitlen n \<le> Suc j \<longleftrightarrow> bitlen (n div 2) \<le> j"
        using False by (simp add: bitlen.simps [of n])
      also have "\<dots> \<longleftrightarrow> n div 2 < 2 ^ j" using 1 [OF False] .
      also have "\<dots> \<longleftrightarrow> n < 2 ^ Suc j" by auto
      finally show ?thesis using Suc by simp
    qed
  qed
qed

lemma bitlen_upper: "n < 2 ^ bitlen n"
  using bitlen_le_iff [of n "bitlen n"] by simp

lemma bitlen_lower: "0 < n \<Longrightarrow> 2 ^ (bitlen n - 1) \<le> n"
proof -
  assume "0 < n"
  then have "bitlen n \<noteq> 0" by (simp add: bitlen.simps [of n])
  then have "\<not> bitlen n \<le> bitlen n - 1" by simp
  then show ?thesis using bitlen_le_iff [of n "bitlen n - 1"] by simp
qed

lemma bitlen_mono: "m \<le> n \<Longrightarrow> bitlen m \<le> bitlen n"
  using bitlen_le_iff [of m "bitlen n"] bitlen_upper [of n] by simp

lemma bitlen_eq: "2 ^ k \<le> n \<Longrightarrow> n < 2 ^ Suc k \<Longrightarrow> bitlen n = Suc k"
  using bitlen_le_iff [of n "Suc k"] bitlen_le_iff [of n k] by simp

lemma round_half_even_ge: "of_int n \<le> z \<Longrightarrow> n \<le> round_half_even z"
proof -
  assume "of_int n \<le> z"
  then have "n \<le> \<lfloor>z\<rfloor>" by (simp add: le_floor_iff)
  then show ?thesis by (simp add: round_half_even_def Let_def)
qed

lemma round_half_even_le: "z \<le> of_int n \<Longrightarrow> round_half_even z \<le> n"
proof -
  assume a: "z \<le> of_int n"
  then have f: "\<lfloor>z\<rfloor> \<le> n" by (simp add: floor_le_iff)
  have "\<lfloor>z\<rfloor> + 1 \<le> n" if "0 < z - of_int \<lfloor>z\<rfloor>"
  proof -
    have "of_int \<lfloor>z\<rfloor> < z" using that by simp
    then have "of_int \<lfloor>z\<rfloor> < (of_int n :: real)" using a by linarith
    then have "\<lfloor>z\<rfloor> < n" by simp
    then show ?thesis by simp
  qed
  then show ?thesis using f by (auto simp add: round_half_even_def Let_def)
qed

lemma round_half_even_of_int [simp]: "round_half_even (of_int n) = n"
  by (simp add: round_half_even_def)

lemma round_half_even_nonneg: "0 \<le> z \<Longrightarrow> 0 \<le> round_half_even z"
  using round_half_even_ge [of 0 z] by simp

lemma below_bitlen: "0 \<le> (y::real) \<Longrightarrow> y < 2 ^ bitlen (nat \<lfloor>y\<rfloor>)"
proof -
  assume y: "0 \<le> y"
  define n where "n = nat \<lfloor>y\<rfloor>"
  have f: "\<lfloor>y\<rfloor> = int n" using y by (simp add: n_def)
  have "n < 2 ^ bitlen n" by (rule bitlen_upper)
  then have "Suc n \<le> 2 ^ bitlen n" by simp
  then have "real (Suc n) \<le> real (2 ^ bitlen n)" by (rule iffD2 [OF of_nat_le_iff])
  then have "real n + 1 \<le> 2 ^ bitlen n" by simp
  moreover have "y < real_of_int \<lfloor>y\<rfloor> + 1" using floor_correct [of y] by simp
  moreover have "real_of_int \<lfloor>y\<rfloor> = real n" using f by simp
  ultimately show ?thesis by (simp add: n_def)
qed

lemma above_bitlen:
  assumes "0 \<le> (y::real)" "0 < bitlen (nat \<lfloor>y\<rfloor>)"
  shows "2 ^ (bitlen (nat \<lfloor>y\<rfloor>) - 1) \<le> y"
proof -
  define n where "n = nat \<lfloor>y\<rfloor>"
  have "n \<noteq> 0" using assms(2) by (auto simp add: n_def bitlen.simps)
  then have "2 ^ (bitlen n - 1) \<le> n" using bitlen_lower [of n] by simp
  then have "real (2 ^ (bitlen n - 1)) \<le> real n" by (rule iffD2 [OF of_nat_le_iff])
  then have a: "(2::real) ^ (bitlen n - 1) \<le> real n" by simp
  have b: "real n \<le> y" using assms(1) by (simp add: n_def)
  have "(2::real) ^ (bitlen n - 1) \<le> y" using a b by (rule order_trans)
  then show ?thesis unfolding n_def .
qed

lemma nat_floor_mono: "0 \<le> (x::real) \<Longrightarrow> x \<le> y \<Longrightarrow> nat \<lfloor>x\<rfloor> \<le> nat \<lfloor>y\<rfloor>"
  by (simp add: floor_mono nat_mono)

lemma ulp_shift_mono: "0 \<le> x \<Longrightarrow> x \<le> y \<Longrightarrow> ulp_shift x \<le> ulp_shift y"
  unfolding ulp_shift_def using bitlen_mono [OF nat_floor_mono] by (simp add: diff_le_mono)

lemma ulp_shift_of_nat [simp]: "ulp_shift (real n) = bitlen n - 53"
  by (simp add: ulp_shift_def)

lemma round_units_nonneg: "0 \<le> y \<Longrightarrow> 0 \<le> round_units y"
  by (simp add: round_units_def round_half_even_nonneg)

lemma round_units_on_grid: "on_grid n \<Longrightarrow> round_units (real n) = real n"
proof -
  assume "on_grid n"
  then obtain N where N: "n = 2 ^ (bitlen n - 53) * N" by (auto simp add: on_grid_def dvd_def)
  have "real n / 2 ^ (bitlen n - 53) = real N"
    by (subst N) simp
  then have "round_units (real n) = real_of_int (round_half_even (real_of_int (int N))) * 2 ^ (bitlen n - 53)"
    by (simp add: round_units_def)
  also have "\<dots> = real N * 2 ^ (bitlen n - 53)" by (simp del: of_int_of_nat_eq)
  also have "\<dots> = real n" by (subst (2) N) simp
  finally show ?thesis .
qed

lemma on_grid_dvd: "on_grid n \<Longrightarrow> s \<le> bitlen n - 53 \<Longrightarrow> 2 ^ s dvd n"
  unfolding on_grid_def using le_imp_power_dvd [of s "bitlen n - 53" "2::nat"] dvd_trans by blast

lemma round_units_multiple_le:
  assumes "0 \<le> y" "y \<le> real (2 ^ s * N)" "ulp_shift y = s"
  shows "round_units y \<le> real (2 ^ s * N)"
proof -
  have "y / 2 ^ s \<le> real N" using assms(2) by (simp add: field_simps)
  then have "y / 2 ^ s \<le> real_of_int (int N)" by simp
  then have "round_half_even (y / 2 ^ s) \<le> int N" by (rule round_half_even_le)
  then have "real_of_int (round_half_even (y / 2 ^ s)) \<le> real_of_int (int N)"
    by (rule iffD2 [OF of_int_le_iff])
  then have "real_of_int (round_half_even (y / 2 ^ s)) * 2 ^ s \<le> real N * 2 ^ s"
    by (simp add: mult_right_mono)
  then show ?thesis by (simp add: round_units_def assms(3) mult.commute)
qed

lemma round_units_multiple_ge:
  assumes "real (2 ^ s * N) \<le> y" "ulp_shift y = s"
  shows "real (2 ^ s * N) \<le> round_units y"
proof -
  have "real N \<le> y / 2 ^ s" using assms(1) by (simp add: field_simps)
  then have "real_of_int (int N) \<le> y / 2 ^ s" by simp
  then have "int N \<le> round_half_even (y / 2 ^ s)" by (rule round_half_even_ge)
  then have "real_of_int (int N) \<le> real_of_int (round_half_even (y / 2 ^ s))"
    by (rule iffD2 [OF of_int_le_iff])
  then have "real N * 2 ^ s \<le> real_of_int (round_half_even (y / 2 ^ s)) * 2 ^ s"
    by (simp add: mult_right_mono)
  then show ?thesis by (simp add: round_units_def assms(2) mult.commute)
qed

lemma round_units_le:
  assumes "on_grid n" "0 \<le> y" "y \<le> real n"
  shows "round_units y \<le> real n"
proof -
  have "ulp_shift y \<le> ulp_shift (real n)" using assms(2,3) by (rule ulp_shift_mono)
  then have "2 ^ ulp_shift y dvd n" using on_grid_dvd [OF assms(1)] by simp
  then obtain N where N: "n = 2 ^ ulp_shift y * N" by (auto simp add: dvd_def)
  show ?thesis
    using round_units_multiple_le [of y "ulp_shift y" N] assms(2,3) N by simp
qed

lemma round_units_ge:
  assumes "on_grid n" "real n \<le> y"
  shows "real n \<le> round_units y"
proof -
  have y: "0 \<le> y" using assms(2) of_nat_0_le_iff [of n] by linarith
  have le: "bitlen n - 53 \<le> ulp_shift y"
    using ulp_shift_mono [of "real n" y] assms(2) by simp
  show ?thesis
  proof (cases "bitlen n - 53 = ulp_shift y")
    case True
    then have "2 ^ ulp_shift y dvd n" using on_grid_dvd [OF assms(1)] by simp
    then obtain N where N: "n = 2 ^ ulp_shift y * N" by (auto simp add: dvd_def)
    show ?thesis
      using round_units_multiple_ge [of "ulp_shift y" N y] assms(2) N by simp
  next
    case False
    define s where "s = ulp_shift y"
    define k where "k = bitlen (nat \<lfloor>y\<rfloor>)"
    have s: "bitlen n - 53 < s" using le False by (simp add: s_def)
    then have k: "k = s + 53" unfolding s_def k_def ulp_shift_def by simp
    have "2 ^ (k - 1) \<le> y" unfolding k_def
      by (rule above_bitlen [OF y]) (use k in \<open>simp add: k_def\<close>)
    then have low: "2 ^ (s + 52) \<le> y" using k by (simp add: add.commute)
    have "real (2 ^ s * 2 ^ 52) \<le> round_units y"
      by (rule round_units_multiple_ge) (use low in \<open>simp_all add: s_def power_add mult.commute\<close>)
    then have r: "2 ^ (s + 52) \<le> round_units y" by (simp add: power_add)
    have "bitlen n \<le> s + 52" using s by simp
    then have "n < 2 ^ (s + 52)" by (simp add: bitlen_le_iff)
    then have "real n < real (2 ^ (s + 52))" by (rule iffD2 [OF of_nat_less_iff])
    then have "real n < 2 ^ (s + 52)" by simp
    then show ?thesis using r by linarith
  qed
qed

lemma round_units_grid:
  assumes "0 \<le> y"
  shows "\<exists>n. round_units y = real n \<and> on_grid n"
proof -
  define s where "s = ulp_shift y"
  define k where "k = bitlen (nat \<lfloor>y\<rfloor>)"
  define m where "m = round_half_even (y / 2 ^ s)"
  have m0: "0 \<le> m" unfolding m_def using assms by (simp add: round_half_even_nonneg)
  have sk: "s = k - 53" by (simp add: s_def k_def ulp_shift_def)
  have "y < 2 ^ k" unfolding k_def by (rule below_bitlen [OF assms])
  moreover have "(2::real) ^ k \<le> 2 ^ (s + 53)" using sk by (intro power_increasing) simp_all
  ultimately have "y < 2 ^ s * 2 ^ 53" by (simp add: power_add)
  then have "y / 2 ^ s \<le> real_of_int (2 ^ 53)" by (simp add: field_simps)
  then have m53: "m \<le> 2 ^ 53" unfolding m_def by (rule round_half_even_le)
  define n where "n = nat m * 2 ^ s"
  have r: "round_units y = real n"
    using m0 by (simp add: round_units_def n_def m_def [symmetric] s_def [symmetric])
  have "on_grid n"
  proof (cases "m = 2 ^ 53")
    case True
    then have n: "n = 2 ^ (53 + s)" by (simp add: n_def power_add nat_power_eq)
    have "bitlen n = Suc (53 + s)" unfolding n by (rule bitlen_eq) simp_all
    then have "bitlen n - 53 = Suc s" by (simp add: n)
    moreover have "(2::nat) ^ Suc s dvd 2 ^ (53 + s)" by (rule le_imp_power_dvd) simp
    ultimately show ?thesis by (simp add: on_grid_def n)
  next
    case False
    then have "m < 2 ^ 53" using m53 by simp
    then have "nat m < 2 ^ 53" using m0 by (simp add: nat_less_iff)
    then have "nat m * 2 ^ s < 2 ^ 53 * 2 ^ s" by simp
    then have "n < 2 ^ (53 + s)" by (simp add: n_def power_add)
    then have "bitlen n \<le> 53 + s" by (simp add: bitlen_le_iff)
    then have "bitlen n - 53 \<le> s" by simp
    then have "(2::nat) ^ (bitlen n - 53) dvd 2 ^ s" by (rule le_imp_power_dvd)
    then show ?thesis by (simp add: on_grid_def n_def)
  qed
  then show ?thesis using r by blast
qed

lemma round_units_zero [simp]: "round_units 0 = 0"
  using round_half_even_of_int [of 0] by (simp add: round_units_def)

lemma unit_scale_pos [simp]: "0 < unit_scale"
  by (simp add: unit_scale_def)

lemma unit_scale_ne [simp]: "unit_scale \<noteq> 0"
  by (simp add: unit_scale_def)

lemma overflow_bound_pos [simp]: "0 < overflow_bound" "\<not> overflow_bound \<le> 0"
  by (simp_all add: overflow_bound_def)

lemma round_double_units:
  "round_double q =
     (let r = round_units (\<bar>q\<bar> * unit_scale) / unit_scale
      in if overflow_bound \<le> r then (if 0 < q then PosInf else NegInf)
         else Finite (if 0 \<le> q then r else - r))"
  by (simp add: round_double_def round_units_def ulp_shift_def Let_def unit_scale_def
      overflow_bound_def)

lemma round_double_zero [simp]: "round_double 0 = Finite 0"
  by (simp add: round_double_units overflow_bound_def)

lemma is_double_grid:
  assumes "is_double v"
  shows "\<exists>n. on_grid n \<and> \<bar>v\<bar> * unit_scale = real n \<and> \<bar>v\<bar> < overflow_bound"
proof -
  define r where "r = round_units (\<bar>v\<bar> * unit_scale) / unit_scale"
  have f: "\<not> overflow_bound \<le> r" "(if 0 \<le> v then r else - r) = v"
    using assms unfolding is_double_def round_double_units Let_def r_def [symmetric]
    by (auto split: if_splits)
  have nn: "0 \<le> \<bar>v\<bar> * unit_scale" using unit_scale_pos by (simp add: less_imp_le)
  then have "0 \<le> round_units (\<bar>v\<bar> * unit_scale)" by (rule round_units_nonneg)
  then have "0 \<le> r" unfolding r_def using unit_scale_pos by (intro divide_nonneg_pos)
  then have rv: "r = \<bar>v\<bar>" using f(2) by (auto split: if_splits)
  then have u: "round_units (\<bar>v\<bar> * unit_scale) = \<bar>v\<bar> * unit_scale"
    unfolding r_def using unit_scale_pos by (simp add: divide_eq_eq)
  obtain n where "round_units (\<bar>v\<bar> * unit_scale) = real n" "on_grid n"
    using round_units_grid [OF nn] by auto
  then show ?thesis using u f(1) rv by auto
qed

lemma grid_is_double:
  assumes "on_grid n" "\<bar>v\<bar> * unit_scale = real n" "\<bar>v\<bar> < overflow_bound"
  shows "is_double v"
proof -
  have "round_units (\<bar>v\<bar> * unit_scale) = \<bar>v\<bar> * unit_scale"
    using round_units_on_grid [OF assms(1)] assms(2) by simp
  then show ?thesis
    using assms(3) by (simp add: is_double_def round_double_units Let_def)
qed

lemma round_double_magnitude:
  "round_double q =
     (if overflow_bound \<le> magnitude q then (if 0 < q then PosInf else NegInf)
      else Finite (if 0 \<le> q then magnitude q else - magnitude q))"
  by (simp add: round_double_units magnitude_def Let_def)

lemma magnitude_nonneg: "0 \<le> magnitude q"
proof -
  have "0 \<le> \<bar>q\<bar> * unit_scale" using unit_scale_pos by (simp add: less_imp_le)
  then have "0 \<le> round_units (\<bar>q\<bar> * unit_scale)" by (rule round_units_nonneg)
  then show ?thesis unfolding magnitude_def using unit_scale_pos by (intro divide_nonneg_pos)
qed

lemma magnitude_zero [simp]: "magnitude 0 = 0"
  by (simp add: magnitude_def)

lemma magnitude_minus [simp]: "magnitude (- q) = magnitude q"
  by (simp add: magnitude_def)

lemma round_double_nonneg: "0 \<le> x \<Longrightarrow> js_le (Finite 0) (round_double x)"
  using magnitude_nonneg [of x] by (cases "x = 0") (simp_all add: round_double_magnitude)

lemma round_double_nonneg_cases:
  assumes "0 \<le> x"
  shows "round_double x = PosInf \<or> (\<exists>v. round_double x = Finite v \<and> 0 \<le> v)"
proof (cases "overflow_bound \<le> magnitude x")
  case True
  then have "x \<noteq> 0" by auto
  then show ?thesis using True assms by (simp add: round_double_magnitude)
next
  case False
  then show ?thesis using assms magnitude_nonneg [of x] by (simp add: round_double_magnitude)
qed

lemma magnitude_ge:
  assumes "is_double r" "\<bar>r\<bar> \<le> \<bar>x\<bar>"
  shows "\<bar>r\<bar> \<le> magnitude x"
proof -
  obtain n where n: "on_grid n" "\<bar>r\<bar> * unit_scale = real n"
    using is_double_grid [OF assms(1)] by auto
  have "real n \<le> \<bar>x\<bar> * unit_scale"
    using assms(2) unit_scale_pos n(2) [symmetric] by (simp add: mult_right_mono less_imp_le)
  then have "real n \<le> round_units (\<bar>x\<bar> * unit_scale)" by (rule round_units_ge [OF n(1)])
  then have "\<bar>r\<bar> * unit_scale \<le> round_units (\<bar>x\<bar> * unit_scale)" using n(2) by simp
  then show ?thesis unfolding magnitude_def using unit_scale_pos by (simp add: pos_le_divide_eq)
qed

lemma magnitude_le:
  assumes "is_double r" "\<bar>x\<bar> \<le> \<bar>r\<bar>"
  shows "magnitude x \<le> \<bar>r\<bar>"
proof -
  obtain n where n: "on_grid n" "\<bar>r\<bar> * unit_scale = real n"
    using is_double_grid [OF assms(1)] by auto
  have nn: "0 \<le> \<bar>x\<bar> * unit_scale" using unit_scale_pos by (simp add: less_imp_le)
  have "\<bar>x\<bar> * unit_scale \<le> real n"
    using assms(2) unit_scale_pos n(2) [symmetric] by (simp add: mult_right_mono less_imp_le)
  then have "round_units (\<bar>x\<bar> * unit_scale) \<le> real n" by (rule round_units_le [OF n(1) nn])
  then have "round_units (\<bar>x\<bar> * unit_scale) \<le> \<bar>r\<bar> * unit_scale" using n(2) by simp
  then show ?thesis unfolding magnitude_def using unit_scale_pos by (simp add: pos_divide_le_eq)
qed

lemma round_double_ge:
  assumes "is_double r" "r \<le> x"
  shows "js_le (Finite r) (round_double x)"
proof (cases "0 \<le> x")
  case True
  show ?thesis
  proof (cases "0 \<le> r")
    case r: True
    then have "\<bar>r\<bar> \<le> magnitude x" using assms True by (intro magnitude_ge) simp_all
    then have m: "r \<le> magnitude x" using r by simp
    show ?thesis
    proof (cases "x = 0")
      case True
      then show ?thesis using assms r by simp
    next
      case False
      then show ?thesis using True m by (simp add: round_double_magnitude)
    qed
  next
    case False
    then show ?thesis
      using round_double_nonneg_cases [OF True] by auto
  qed
next
  case False
  then have "\<bar>x\<bar> \<le> \<bar>r\<bar>" using assms(2) by simp
  then have m: "magnitude x \<le> \<bar>r\<bar>" by (rule magnitude_le [OF assms(1)])
  have "\<bar>r\<bar> < overflow_bound" using is_double_grid [OF assms(1)] by auto
  then have "\<not> overflow_bound \<le> magnitude x" using m by simp
  moreover have "r \<le> - magnitude x" using m False assms(2) by simp
  ultimately show ?thesis using False by (simp add: round_double_magnitude)
qed

lemma round_double_is_double:
  assumes "round_double x = Finite v"
  shows "is_double v"
proof -
  have f: "\<not> overflow_bound \<le> magnitude x" "v = (if 0 \<le> x then magnitude x else - magnitude x)"
    using assms by (auto simp add: round_double_magnitude split: if_splits)
  have a: "\<bar>v\<bar> = magnitude x" using f(2) magnitude_nonneg [of x] by simp
  have nn: "0 \<le> \<bar>x\<bar> * unit_scale" using unit_scale_pos by (simp add: less_imp_le)
  obtain n where n: "round_units (\<bar>x\<bar> * unit_scale) = real n" "on_grid n"
    using round_units_grid [OF nn] by auto
  have "\<bar>v\<bar> * unit_scale = real n" using a n(1) by (simp add: magnitude_def)
  then show ?thesis using n(2) f(1) a by (intro grid_is_double [of n]) simp_all
qed

lemma ulp_shift_eq:
  assumes "2 ^ (52 + s) \<le> y" "y < 2 ^ (53 + s)"
  shows "ulp_shift y = s"
proof -
  define n where "n = nat \<lfloor>y\<rfloor>"
  have y: "0 \<le> y" using assms(1) zero_le_power [of "2::real" "52 + s"] by linarith
  have f: "real_of_int \<lfloor>y\<rfloor> = real n" using y by (simp add: n_def)
  have "real_of_int (2 ^ (52 + s)) \<le> y" using assms(1) by simp
  then have "(2::int) ^ (52 + s) \<le> \<lfloor>y\<rfloor>" by (simp only: le_floor_iff)
  then have "real_of_int (2 ^ (52 + s)) \<le> real_of_int \<lfloor>y\<rfloor>" by (rule iffD2 [OF of_int_le_iff])
  then have "(2::real) ^ (52 + s) \<le> real n" unfolding f by simp
  then have lo: "2 ^ (52 + s) \<le> n" by simp
  have "real n \<le> y" using f of_int_floor_le [of y] by simp
  then have "real n < 2 ^ (53 + s)" using assms(2) by linarith
  then have "n < 2 ^ (53 + s)" by simp
  then have hi: "n < 2 ^ Suc (52 + s)" by simp
  have "bitlen n = Suc (52 + s)" using lo hi by (rule bitlen_eq)
  then show ?thesis by (simp add: ulp_shift_def n_def [symmetric])
qed

lemma round_double_small:
  assumes "n \<le> 1074" "2 ^ 52 \<le> q * 2 ^ n" "q * 2 ^ n < 2 ^ 53"
  shows "round_double q = Finite (real_of_int (round_half_even (q * 2 ^ n)) / 2 ^ n)"
proof -
  define s where "s = 1074 - n"
  define y where "y = q * 2 ^ n"
  have q: "0 < q"
  proof (rule ccontr)
    assume "\<not> 0 < q"
    then have "q * 2 ^ n \<le> 0" by (simp add: mult_le_0_iff)
    then show False using assms(2) zero_less_power [of "2::real" 52] by linarith
  qed
  have u: "unit_scale = 2 ^ n * 2 ^ s"
    using assms(1) by (simp add: unit_scale_def s_def flip: power_add)
  have Y: "\<bar>q\<bar> * unit_scale = y * 2 ^ s" using q by (simp add: u y_def)
  have "2 ^ 52 * 2 ^ s \<le> y * 2 ^ s" using assms(2) by (simp add: y_def)
  then have lo: "2 ^ (52 + s) \<le> y * 2 ^ s" by (simp add: power_add)
  have "y * 2 ^ s < 2 ^ 53 * 2 ^ s" using assms(3) by (simp add: y_def)
  then have hi: "y * 2 ^ s < 2 ^ (53 + s)" by (simp add: power_add)
  have sh: "ulp_shift (y * 2 ^ s) = s" using lo hi by (rule ulp_shift_eq)
  have ru: "round_units (y * 2 ^ s) = real_of_int (round_half_even y) * 2 ^ s"
    by (simp add: round_units_def sh)
  have m: "magnitude q = real_of_int (round_half_even y) / 2 ^ n"
    unfolding magnitude_def Y ru by (simp add: u)
  have "y \<le> real_of_int (2 ^ 53)" using assms(3) by (simp add: y_def)
  then have "round_half_even y \<le> 2 ^ 53" by (rule round_half_even_le)
  then have "real_of_int (round_half_even y) \<le> real_of_int (2 ^ 53)"
    by (rule iffD2 [OF of_int_le_iff])
  then have "real_of_int (round_half_even y) \<le> 2 ^ 53" by simp
  moreover have "real_of_int (round_half_even y) / 2 ^ n \<le> real_of_int (round_half_even y)"
    using round_half_even_nonneg [of y] q
    by (simp add: y_def divide_le_eq mult_le_cancel_left1 less_imp_le)
  ultimately have "magnitude q \<le> 2 ^ 53" unfolding m by linarith
  moreover have "(2::real) ^ 53 < overflow_bound" by (simp add: overflow_bound_def)
  ultimately have "\<not> overflow_bound \<le> magnitude q" by linarith
  then show ?thesis using q by (simp add: round_double_magnitude m y_def)
qed

lemma num_examples:
  "round_double 60 = Finite 60"
  "round_double (1 / 50) = Finite (5764607523034235 / 2 ^ 58)"
  by (simp_all add: round_double_small [of 47] round_double_small [of 58] round_half_even_def)

lemma js_le_refl: "valid_angle a \<Longrightarrow> js_le a a"
  by (cases a) (simp_all add: valid_angle_def)

lemma js_le_trans: "js_le a b \<Longrightarrow> js_le b c \<Longrightarrow> js_le a c"
  by (cases a; cases b; cases c) simp_all

lemma increment_round: "0 \<le> x \<Longrightarrow> increment (round_double x)"
  using round_double_nonneg_cases [of x] by (auto simp add: increment_def)

lemma num_60: "num 60 = Finite 60"
  unfolding num_def by (simp add: round_double_small [of 47] round_half_even_def)

lemma increment_times_60: "increment a \<Longrightarrow> increment (js_mul a (num 60))"
  by (cases a) (simp_all add: num_60 increment_def increment_round [unfolded increment_def]
      inf_times_def)

lemma increment_nonneg:
  "nonneg_finite s \<Longrightarrow> nonneg_finite d \<Longrightarrow> increment (js_mul (js_mul s d) (num 60))"
  by (cases s; cases d) (simp_all add: nonneg_finite_def increment_times_60 increment_round)

lemma increment_PosInf [simp]: "increment PosInf"
  by (simp add: increment_def)

lemma increment_positive:
  assumes "positive_finite s" "js_le (Finite 0) d"
  shows "increment (js_mul (js_mul s d) (num 60))"
proof -
  obtain a where a: "s = Finite a" "0 < a"
    using assms(1) by (cases s) (auto simp add: positive_finite_def nonneg_finite_def)
  have "increment (js_mul s d)"
  proof (cases d)
    case (Finite b)
    then have "0 \<le> a * b" using a(2) assms(2) by simp
    then show ?thesis using Finite a(1) by (simp add: increment_round)
  next
    case PosInf
    then show ?thesis using a by (simp add: inf_times_def)
  qed (use assms(2) in simp_all)
  then show ?thesis by (rule increment_times_60)
qed

lemma add_increment:
  assumes "valid_angle a" "increment b"
  shows "js_le a (js_add a b) \<and> valid_angle (js_add a b)"
proof (cases a)
  case (Finite q)
  then have q: "is_double q" using assms(1) by (simp add: valid_angle_def)
  show ?thesis
  proof (cases b)
    case (Finite v)
    then have "0 \<le> v" using assms(2) by (simp add: increment_def)
    then have le: "js_le (Finite q) (round_double (q + v))" by (intro round_double_ge [OF q]) simp
    then have "valid_angle (round_double (q + v))"
      by (cases "round_double (q + v)") (simp_all add: valid_angle_def round_double_is_double)
    then show ?thesis using le \<open>a = Finite q\<close> Finite by simp
  qed (use assms(2) \<open>a = Finite q\<close> in \<open>simp_all add: increment_def valid_angle_def\<close>)
qed (use assms in \<open>cases b; simp add: increment_def valid_angle_def\<close>)+


lemma rotate_item_angle:
  assumes "valid_angle (rotation_y st r)" "increment (js_mul (js_mul (speed item) d) (num 60))"
    "r < length (objects st)"
  shows "js_le (rotation_y st r) (rotation_y (rotate_item d st item) r) \<and>
         valid_angle (rotation_y (rotate_item d st item) r)"
proof (cases "r = group item")
  case True
  then show ?thesis
    using add_increment [OF assms(1,2)] assms(3)
    by (simp add: rotation_y_def rotate_item_def modify_objects)
next
  case False
  then show ?thesis
    using assms(1) by (simp add: rotation_y_def rotate_item_def modify_objects js_le_refl)
qed

lemma rotate_item_orbits [simp]: "planetOrbits (rotate_item d st item) = planetOrbits st"
  by (simp add: rotate_item_def)

lemma foldl_rotate_angle:
  assumes "\<forall>it \<in> set items. increment (js_mul (js_mul (speed it) d) (num 60))"
    "valid_angle (rotation_y st r)" "r < length (objects st)"
  shows "js_le (rotation_y st r) (rotation_y (foldl (rotate_item d) st items) r) \<and>
         valid_angle (rotation_y (foldl (rotate_item d) st items) r)"
  using assms
proof (induction items arbitrary: st)
  case Nil
  then show ?case by (simp add: js_le_refl)
next
  case (Cons it items)
  have i: "increment (js_mul (js_mul (speed it) d) (num 60))" using Cons.prems(1) by simp
  have s: "js_le (rotation_y st r) (rotation_y (rotate_item d st it) r)"
    "valid_angle (rotation_y (rotate_item d st it) r)"
    using rotate_item_angle [OF Cons.prems(2) i Cons.prems(3)] by simp_all
  have "js_le (rotation_y (rotate_item d st it) r)
          (rotation_y (foldl (rotate_item d) (rotate_item d st it) items) r) \<and>
        valid_angle (rotation_y (foldl (rotate_item d) (rotate_item d st it) items) r)"
    using Cons.prems(1,3) s(2) by (intro Cons.IH) simp_all
  then show ?case using s(1) by (auto intro: js_le_trans)
qed

lemma advance_angle_mono:
  assumes "\<forall>it \<in> set (planetOrbits st). increment (js_mul (js_mul (speed it) d) (num 60))"
    "valid_angle (rotation_y st r)" "r < length (objects st)"
  shows "js_le (rotation_y st r) (rotation_y (advance d st) r) \<and>
         valid_angle (rotation_y (advance d st) r)"
  using foldl_rotate_angle [OF assms] assms(2) by (simp add: advance_def js_le_refl)


lemma num_positive:
  assumes "n \<le> 1074" "2 ^ 52 \<le> q * 2 ^ n" "q * 2 ^ n < 2 ^ 53"
  shows "positive_finite (num q)"
proof -
  have "real_of_int (2 ^ 52) \<le> q * 2 ^ n" using assms(2) by simp
  then have "2 ^ 52 \<le> round_half_even (q * 2 ^ n)" by (rule round_half_even_ge)
  then have p: "0 < round_half_even (q * 2 ^ n)" by simp
  then have "0 < real_of_int (round_half_even (q * 2 ^ n)) / 2 ^ n" by simp
  then show ?thesis
    unfolding num_def round_double_small [OF assms] using p
    by (simp add: positive_finite_def nonneg_finite_def)
qed

lemma startup_speeds: "\<forall>it \<in> set (planetOrbits (startup w h)). positive_finite (speed it)"
  by (simp add: startup_orbits num_positive [of 58] num_positive [of 59] num_positive [of 60]
      num_positive [of 61] num_positive [of 62] num_positive [of 57])

lemma built_objects_rotation:
  "ob \<in> set (built_objects e n) \<Longrightarrow> euler_y (rotation ob) = Finite 0"
  by (auto simp add: built_objects_def planet_mesh_def moon_objects_def ring_mesh_def
      new_object3d_def split: if_splits)

lemma built_all_rotation:
  "ob \<in> set (built_all cat n) \<Longrightarrow> euler_y (rotation ob) = Finite 0"
  by (induction cat arbitrary: n) (auto simp add: built_objects_rotation)

lemma startup_rotation:
  "ob \<in> set (objects (startup w h)) \<Longrightarrow> euler_y (rotation ob) = Finite 0"
  by (auto simp add: startup_objects built_all_rotation new_object3d_def)

lemma valid_angle_zero [simp]: "valid_angle (Finite 0)"
  by (simp add: valid_angle_def is_double_def)

lemma startup_valid:
  "r < length (objects (startup w h)) \<Longrightarrow> valid_angle (rotation_y (startup w h) r)"
  using startup_rotation [of "objects (startup w h) ! r" w h] by (simp add: rotation_y_def)


lemma advance_orbits [simp]: "planetOrbits (advance d st) = planetOrbits st"
  by (subst advance_eq) simp

lemma advance_length [simp]: "length (objects (advance d st)) = length (objects st)"
  by (simp add: advance_def)

lemma onMouseMove_orbits [simp]: "planetOrbits (onMouseMove lib cx cy st) = planetOrbits st"
  by (simp add: onMouseMove_def Let_def split_def split: list.split)

lemma onClick_orbits [simp]: "planetOrbits (onClick lib cx cy st) = planetOrbits st"
  by (simp add: onClick_def Let_def split_def split: list.split)

lemma dispatch_orbits [simp]: "planetOrbits (dispatch lib st ev) = planetOrbits st"
  by (cases ev) (simp_all add: onMouseDown_def onMouseUp_def onResize_def Let_def animate_def)

lemma dispatch_length [simp]: "length (objects (dispatch lib st ev)) = length (objects st)"
  by (cases ev) (simp_all add: onMouseDown_def onMouseUp_def onResize_def Let_def animate_def)

lemma dispatch_valid:
  assumes "\<forall>it \<in> set (planetOrbits st). positive_finite (speed it)" "nonneg_frame ev"
    "valid_angle (rotation_y st r)" "r < length (objects st)"
  shows "valid_angle (rotation_y (dispatch lib st ev) r)"
proof (cases ev)
  case (Frame d)
  then have "js_le (Finite 0) d" using assms(2) by simp
  then have "\<forall>it \<in> set (planetOrbits st). increment (js_mul (js_mul (speed it) d) (num 60))"
    using assms(1) by (simp add: increment_positive)
  from advance_angle_mono [OF this assms(3,4)] show ?thesis
    using Frame by (simp add: animate_def Let_def rotation_y_def)
qed (use assms(3) in \<open>simp_all add: rotation_y_def onMouseDown_def onMouseUp_def onResize_def Let_def\<close>)

lemma run_orbits [simp]: "planetOrbits (run lib st evs) = planetOrbits st"
  unfolding run_def by (induction evs arbitrary: st) simp_all

lemma run_length [simp]: "length (objects (run lib st evs)) = length (objects st)"
  unfolding run_def by (induction evs arbitrary: st) simp_all

lemma run_valid:
  assumes "\<forall>it \<in> set (planetOrbits st). positive_finite (speed it)" "list_all nonneg_frame evs"
    "valid_angle (rotation_y st r)" "r < length (objects st)"
  shows "valid_angle (rotation_y (run lib st evs) r)"
  using assms unfolding run_def
proof (induction evs arbitrary: st)
  case Nil
  then show ?case by simp
next
  case (Cons ev evs)
  have "valid_angle (rotation_y (dispatch lib st ev) r)"
    using Cons.prems by (intro dispatch_valid) simp_all
  then show ?case using Cons.prems by (simp add: Cons.IH)
qed
















section \<open>The claims\<close>

subsection \<open>The animation driver\<close>

text \<open>
  Claim C4 (pause invariant). While the animation is paused, that is while
  \<^verbatim>\<open>animationActive\<close> is false, any sequence of \<^verbatim>\<open>advance\<close> calls, whatever the deltas,
  leaves the state as it was; in particular no rotation angle changes.
\<close>

theorem pause_invariant:
  "\<not> animationActive st \<Longrightarrow>
   foldl (\<lambda>s delta. advance delta s) st deltas = st \<and>
   (\<forall>r. euler_y (rotation (objects (foldl (\<lambda>s delta. advance delta s) st deltas) ! r)) =
        euler_y (rotation (objects st ! r)))"
  by (simp add: advances_paused)

theorem pause_invariant_witness:
  "\<not> animationActive (onMouseDown page) \<and>
   foldl (\<lambda>s delta. advance delta s) (onMouseDown page) [Finite 1, PosInf, NaN] =
     onMouseDown page"
  using pause_invariant [of "onMouseDown page" "[Finite 1, PosInf, NaN]"]
  by (simp add: onMouseDown_def)

text \<open>
  Claim C9 (frame property of advance). An \<^verbatim>\<open>advance\<close> call changes nothing but the
  store of objects: the animation list with its speeds, the registry, the pause flag and
  every other variable are as before. In the store no object is added or removed, every
  object keeps everything but the rotation about its vertical axis (its position, its
  kind, its children, its metadata and its two other angles), and an object that is not
  the group of an animation item is not touched at all.
\<close>

theorem advance_frame:
  "advance delta st = st\<lparr>objects := objects (advance delta st)\<rparr> \<and>
   length (objects (advance delta st)) = length (objects st) \<and>
   (\<forall>r. r < length (objects st) \<longrightarrow>
      (objects (advance delta st) ! r)
        \<lparr>rotation := (rotation (objects (advance delta st) ! r))
           \<lparr>euler_y := euler_y (rotation (objects st ! r))\<rparr>\<rparr> = objects st ! r) \<and>
   (\<forall>r. r \<notin> group ` set (planetOrbits st) \<longrightarrow>
      objects (advance delta st) ! r = objects st ! r)"
proof (intro conjI allI impI)
  show "advance delta st = st\<lparr>objects := objects (advance delta st)\<rparr>"
    by (rule advance_eq)
  show "length (objects (advance delta st)) = length (objects st)"
    by (simp add: advance_def)
next
  fix r assume "r < length (objects st)"
  then have "same_but_y (objects (advance delta st) ! r) (objects st ! r)"
    by (simp add: advance_def foldl_rotate_nth same_but_y_refl)
  then show "(objects (advance delta st) ! r)
        \<lparr>rotation := (rotation (objects (advance delta st) ! r))
           \<lparr>euler_y := euler_y (rotation (objects st ! r))\<rparr>\<rparr> = objects st ! r"
    by (simp add: same_but_y_def)
next
  fix r assume "r \<notin> group ` set (planetOrbits st)"
  then show "objects (advance delta st) ! r = objects st ! r"
    by (simp add: advance_def foldl_rotate_other)
qed

theorem advance_frame_witness:
  "animationActive page \<and> 13 < length (objects page) \<and>
   (objects (advance (Finite 1) page) ! 13)
     \<lparr>rotation := (rotation (objects (advance (Finite 1) page) ! 13))
        \<lparr>euler_y := euler_y (rotation (objects page ! 13))\<rparr>\<rparr> = objects page ! 13 \<and>
   12 \<notin> group ` set (planetOrbits page) \<and>
   objects (advance (Finite 1) page) ! 12 = objects page ! 12 \<and>
   planetOrbits (advance (Finite 1) page) = planetOrbits page"
proof -
  have a: "animationActive page" by (simp add: page_def startup_def)
  have l: "13 < length (objects page)" by (simp add: page_def startup_length)
  have g: "12 \<notin> group ` set (planetOrbits page)" by (simp add: page_def startup_orbits)
  have e: "planetOrbits (advance (Finite 1) page) = planetOrbits page"
    by (subst advance_eq) simp
  show ?thesis
    using advance_frame [of "Finite 1" page] a l g e by blast
qed

subsection \<open>The pause state machine\<close>

text \<open>
  Claim C6 (pause state machine). The animation is in one of two states, Running or
  Paused. It is Running once the script has run; a \<^verbatim>\<open>mousedown\<close> event puts it in
  Paused and a \<^verbatim>\<open>mouseup\<close> event in Running; no other event, a frame and the passing
  of time included, changes the state.
\<close>

theorem pause_state_machine:
  "pause_state_of (startup w h) = Running \<and>
   pause_state_of (dispatch lib st MouseDown) = Paused \<and>
   pause_state_of (dispatch lib st MouseUp) = Running \<and>
   (ev \<noteq> MouseDown \<and> ev \<noteq> MouseUp \<longrightarrow>
      pause_state_of (dispatch lib st ev) = pause_state_of st)"
  by (cases ev)
     (simp_all add: pause_state_of_def startup_def onMouseDown_def onMouseUp_def)

theorem pause_state_machine_witness:
  "Frame (Finite 1) \<noteq> MouseDown \<and> Frame (Finite 1) \<noteq> MouseUp \<and>
   pause_state_of (dispatch test_lib (onMouseDown page) (Frame (Finite 1))) = Paused \<and>
   pause_state_of (dispatch test_lib page MouseDown) = Paused"
  using pause_state_machine [of "Finite 800" "Finite 600" test_lib "onMouseDown page" "Frame (Finite 1)"]
    pause_state_machine [of "Finite 800" "Finite 600" test_lib page "Frame (Finite 1)"]
  by (simp add: pause_state_of_def onMouseDown_def)

subsection \<open>The orbit graph builder\<close>

text \<open>
  Claim C3 (the stock system). Each entry of a catalog adds one mesh to the registry and
  one item to the animation list, and one more item exactly when it has a moon. The stock
  catalog has eight entries, of which the third alone has a moon, so the script leaves
  nine animation items: one per planet, whose group is an \<^verbatim>\<open>Object3D\<close> holding that
  planet's mesh and nothing else, and the moon's. The registry holds eight references,
  to the meshes of Mercury to Neptune in this order, each a sphere of its entry's radius.
  The meshes outside the registry are the sun, the moon and the ring.
\<close>

theorem stock_system:
  "length (hoverablePlanets (build_planet st e)) = length (hoverablePlanets st) + 1 \<and>
   length (planetOrbits (build_planet st e)) =
     length (planetOrbits st) + 1 + (if hasMoon e then 1 else 0) \<and>
   length planetsData = 8 \<and>
   map hasMoon planetsData = [False, False, True, False, False, False, False, False] \<and>
   length (planetOrbits (startup w h)) = 9 \<and>
   map group (planetOrbits (startup w h)) = [5, 7, 9, 11, 13, 15, 17, 20, 22] \<and>
   map (\<lambda>it. (kind (objects (startup w h) ! group it), children (objects (startup w h) ! group it)))
     (planetOrbits (startup w h)) =
     [(Object3D, [4]), (Object3D, [6]), (Object3D, [8]), (Object3D, [10]), (Object3D, [12]),
      (Object3D, [14]), (Object3D, [16]), (Object3D, [19]), (Object3D, [21])] \<and>
   hoverablePlanets (startup w h) = [4, 6, 8, 12, 14, 16, 19, 21] \<and>
   map (\<lambda>r. userData_name (objects (startup w h) ! r)) (hoverablePlanets (startup w h)) =
     [Some ''Mercury'', Some ''Venus'', Some ''Earth'', Some ''Mars'', Some ''Jupiter'',
      Some ''Saturn'', Some ''Uranus'', Some ''Neptune''] \<and>
   map (\<lambda>r. kind (objects (startup w h) ! r)) (hoverablePlanets (startup w h)) =
     map (\<lambda>e. Mesh (SphereGeometry (planetRadius e) 32 32) (planet_material e)) planetsData \<and>
   filter (\<lambda>r. is_mesh (objects (startup w h) ! r) \<and> r \<notin> set (hoverablePlanets (startup w h)))
     [0..<length (objects (startup w h))] = [3, 10, 18] \<and>
   kind (objects (startup w h) ! 3) =
     Mesh (SphereGeometry (num 4) 32 32) (MeshBasicMaterial 0xffff00 False False (num 1)) \<and>
   objects (startup w h) ! 10 = hd (moon_objects 8) \<and>
   objects (startup w h) ! 18 = ring_mesh (planetsData ! 5)"
proof -
  have k: "map (\<lambda>r. kind (objects (startup w h) ! r)) (hoverablePlanets (startup w h)) =
     map (\<lambda>e. Mesh (SphereGeometry (planetRadius e) 32 32) (planet_material e)) planetsData"
    using buildSystem_registry_kinds [OF init_scene_objects, of planetsData w h]
    by (simp add: startup_def buildSystem_hoverable)
  have o: "map (\<lambda>it. (kind (objects (startup w h) ! group it), children (objects (startup w h) ! group it)))
     (planetOrbits (startup w h)) =
     [(Object3D, [4]), (Object3D, [6]), (Object3D, [8]), (Object3D, [10]), (Object3D, [12]),
      (Object3D, [14]), (Object3D, [16]), (Object3D, [19]), (Object3D, [21])]"
    by (simp add: startup_orbits startup_objects planetsData_def
      length_built_objects built_objects_def moon_objects_def new_object3d_def)
  have f: "filter (\<lambda>r. is_mesh (objects (startup w h) ! r) \<and> r \<notin> set (hoverablePlanets (startup w h)))
     [0..<length (objects (startup w h))] = [3, 10, 18]"
    by (simp add: startup_length startup_hoverable startup_objects planetsData_def
      length_built_objects built_objects_def moon_objects_def new_object3d_def
      planet_mesh_def ring_mesh_def is_mesh_def upt_rec_numeral)
  have s: "kind (objects (startup w h) ! 3) =
     Mesh (SphereGeometry (num 4) 32 32) (MeshBasicMaterial 0xffff00 False False (num 1))"
    "objects (startup w h) ! 10 = hd (moon_objects 8)"
    "objects (startup w h) ! 18 = ring_mesh (planetsData ! 5)"
    by (simp_all add: startup_objects planetsData_def
      length_built_objects built_objects_def moon_objects_def new_object3d_def)
  have c: "length planetsData = 8"
    "map hasMoon planetsData = [False, False, True, False, False, False, False, False]"
    by (simp_all add: planetsData_def)
  have p: "length (hoverablePlanets (build_planet st e)) = length (hoverablePlanets st) + 1"
    "length (planetOrbits (build_planet st e)) =
       length (planetOrbits st) + 1 + (if hasMoon e then 1 else 0)"
    by (simp_all add: build_planet_hoverable build_planet_orbits)
  have q: "length (planetOrbits (startup w h)) = 9"
    "map group (planetOrbits (startup w h)) = [5, 7, 9, 11, 13, 15, 17, 20, 22]"
    by (simp_all add: startup_orbits)
  show ?thesis
    by (intro conjI) (rule p q c o startup_hoverable startup_names k f s)+
qed

theorem stock_system_witness:
  "length (planetOrbits (startup (Finite 800) (Finite 600))) = 9 \<and>
   length (hoverablePlanets page) = 8 \<and>
   length (planetOrbits (build_planet page (planetsData ! 2))) = length (planetOrbits page) + 2"
  using stock_system [of page "planetsData ! 2" "Finite 800" "Finite 600"]
  by (simp add: page_def planetsData_def)

text \<open>
  Claim C7 (malformed entries), as the specification states it: an entry with a negative
  radius is caught by a validation, and only its own construction fails. The builder
  validates nothing. The entry with radius \<open>-1\<close> is built like any other: its mesh,
  a sphere of radius \<open>-1\<close>, is in the registry, and its orbit is animated; the build
  differs from the build of the catalog without the entry.
\<close>

theorem validation_counterexample:
  "malformed negative_radius_entry \<and>
   buildSystem [negative_radius_entry] (init_scene (Finite 800) (Finite 600)) \<noteq>
     buildSystem (filter (\<lambda>e. \<not> malformed e) [negative_radius_entry])
       (init_scene (Finite 800) (Finite 600)) \<and>
   hoverablePlanets (buildSystem [negative_radius_entry] (init_scene (Finite 800) (Finite 600))) = [4] \<and>
   kind (objects (buildSystem [negative_radius_entry] (init_scene (Finite 800) (Finite 600))) ! 4) =
     Mesh (SphereGeometry (Finite (- 1)) 32 32) (MeshStandardMaterial_color (Some 0)) \<and>
   planetOrbits (buildSystem [negative_radius_entry] (init_scene (Finite 800) (Finite 600))) =
     [\<lparr>group = 5, speed = Finite 0\<rparr>]"
proof -
  let ?st = "init_scene (Finite 800) (Finite 600)"
  let ?S = "buildSystem [negative_radius_entry] ?st"
  have h: "hoverablePlanets ?S = [4]"
    by (simp add: buildSystem_hoverable init_scene_length)
  have o: "planetOrbits ?S = [\<lparr>group = 5, speed = Finite 0\<rparr>]"
    by (simp add: buildSystem_orbits init_scene_length negative_radius_entry_def)
  have k: "kind (objects ?S ! 4) =
     Mesh (SphereGeometry (Finite (- 1)) 32 32) (MeshStandardMaterial_color (Some 0))"
    using buildSystem_registry_kinds [OF init_scene_objects, of "[negative_radius_entry]"
        "Finite 800" "Finite 600"]
    by (simp add: init_scene_length negative_radius_entry_def planet_material_def)
  have e: "filter (\<lambda>e. \<not> malformed e) [negative_radius_entry] = []"
    by (simp add: malformed_negative_radius)
  have "hoverablePlanets (buildSystem (filter (\<lambda>e. \<not> malformed e) [negative_radius_entry]) ?st) = []"
    unfolding e by (simp add: buildSystem_def)
  then have n: "?S \<noteq> buildSystem (filter (\<lambda>e. \<not> malformed e) [negative_radius_entry]) ?st"
    using h by (metis list.distinct(1))
  show ?thesis
    by (intro conjI) (rule malformed_negative_radius n h k o)+
qed

text \<open>
  Claim C7, amended. The builder performs no validation and never aborts: every entry
  of the catalog, malformed or not, adds one mesh to the registry, a sphere with the
  radius the entry gives, and one animation item, two with a moon; the entries after a
  malformed one are built as well.
\<close>

theorem build_without_validation:
  assumes "objects st \<noteq> []"
  shows "hoverablePlanets (buildSystem cat st) =
           hoverablePlanets st @ planet_refs cat (length (objects st)) \<and>
         length (planet_refs cat (length (objects st))) = length cat \<and>
         map (\<lambda>r. kind (objects (buildSystem cat st) ! r)) (planet_refs cat (length (objects st))) =
           map (\<lambda>e. Mesh (SphereGeometry (planetRadius e) 32 32) (planet_material e)) cat \<and>
         length (planetOrbits (buildSystem cat st)) =
           length (planetOrbits st) + length cat + length (filter hasMoon cat)"
proof -
  obtain sc rest where o: "objects st = sc # rest"
    using assms by (cases "objects st") auto
  show ?thesis
    using buildSystem_registry_kinds [OF o, of cat]
    by (simp add: buildSystem_hoverable buildSystem_orbits length_orbit_items)
qed

theorem build_without_validation_witness:
  "objects (init_scene (Finite 800) (Finite 600)) \<noteq> [] \<and>
   malformed negative_radius_entry \<and>
   hoverablePlanets
     (buildSystem [negative_radius_entry, hd planetsData] (init_scene (Finite 800) (Finite 600))) =
     [4, 6] \<and>
   map (\<lambda>r. kind (objects
       (buildSystem [negative_radius_entry, hd planetsData] (init_scene (Finite 800) (Finite 600))) ! r))
     [4, 6] =
     [Mesh (SphereGeometry (Finite (- 1)) 32 32) (MeshStandardMaterial_color (Some 0)),
      Mesh (SphereGeometry (num (5 / 10)) 32 32) (MeshStandardMaterial_color (Some 0xaaaaaa))] \<and>
   length (planetOrbits
     (buildSystem [negative_radius_entry, hd planetsData] (init_scene (Finite 800) (Finite 600)))) = 2"
proof -
  have ne: "objects (init_scene (Finite 800) (Finite 600)) \<noteq> []"
    by (simp add: init_scene_objects)
  show ?thesis
    using build_without_validation [OF ne, of "[negative_radius_entry, hd planetsData]"]
      malformed_negative_radius ne
    by (simp add: init_scene_length length_built_objects negative_radius_entry_def
        planetsData_def planet_material_def)
qed

subsection \<open>The overlay\<close>

text \<open>
  Claim C1 (overlay re-arm), as the specification states it: a second trigger 3000 ms
  after the first resets the dismissal, so that the overlay is still visible 5000 ms after
  the first trigger. With a ray that meets Mars, two clicks 3000 ms apart leave two
  dismissals pending, due at 5000 and at 8000; the first one hides the overlay at 5000,
  and at 6000 it is still hidden.
\<close>

theorem overlay_rearm_counterexample:
  "overlay_visible
     (run test_lib page [Click (Finite 400) (Finite 300), Elapse 3000, Click (Finite 400) (Finite 300)]) \<and>
   now (run test_lib page [Click (Finite 400) (Finite 300), Elapse 3000, Click (Finite 400) (Finite 300)])
     = 3000 \<and>
   timers (run test_lib page [Click (Finite 400) (Finite 300), Elapse 3000, Click (Finite 400) (Finite 300)])
     = [5000, 8000] \<and>
   \<not> overlay_visible
     (run test_lib page [Click (Finite 400) (Finite 300), Elapse 3000, Click (Finite 400) (Finite 300),
        Elapse 2000]) \<and>
   \<not> overlay_visible
     (run test_lib page [Click (Finite 400) (Finite 300), Elapse 3000, Click (Finite 400) (Finite 300),
        Elapse 3000])"
  by (simp add: run_def click_mars elapse_visible)

text \<open>
  Claim C1, amended. Each trigger shows the overlay and registers one more dismissal,
  due 5000 ms later; no pending dismissal is replaced or cancelled. The overlay is then
  visible until the earliest pending dismissal comes due, be it this trigger's or an
  earlier one's. A dismissal runs once and is no longer pending afterwards.
\<close>

theorem overlay_dismissal:
  "overlay_visible (showGifOverlay st) \<and>
   timers (showGifOverlay st) = timers st @ [now st + 5000] \<and>
   overlay_visible (elapse ms (showGifOverlay st)) =
     (ms < 5000 \<and> (\<forall>d \<in> set (timers st). now st + ms < d)) \<and>
   timers (elapse ms st) = filter (\<lambda>d. now st + ms < d) (timers st) \<and>
   now (elapse ms st) = now st + ms"
  by (auto simp add: elapse_visible)

theorem overlay_dismissal_witness:
  "overlay_visible (showGifOverlay (elapse 3000 (showGifOverlay page))) \<and>
   timers (showGifOverlay (elapse 3000 (showGifOverlay page))) = [5000, 8000] \<and>
   overlay_visible (elapse 1999 (showGifOverlay (elapse 3000 (showGifOverlay page)))) \<and>
   \<not> overlay_visible (elapse 2000 (showGifOverlay (elapse 3000 (showGifOverlay page))))"
  using overlay_dismissal [of "elapse 3000 (showGifOverlay page)" 1999]
    overlay_dismissal [of "elapse 3000 (showGifOverlay page)" 2000]
    overlay_dismissal [of page 3000]
  by simp

subsection \<open>Picking\<close>

text \<open>
  Claim C2 (pick). For every pointer position, every camera and every state, each
  handler puts the normalized pointer position into \<^verbatim>\<open>mouse\<close> and aims the ray caster
  along the pointer ray, the ray from the camera through that position. The pick both
  handlers then perform returns nothing exactly when the pointer ray meets no member of
  the registry; otherwise it returns a member of the registry that the pointer ray meets
  at a parameter no greater than any parameter at which it meets any member. The hover
  handler shows the tooltip exactly when something is picked, the click handler shows the
  overlay exactly when the picked object is named Mars. In every state the page can
  reach, the registry is the eight planet meshes, and neither the sun nor the moon nor
  the ring is ever picked.

  The theorem is about the ray caster as the specification describes it, one that tests
  the objects it is given and no other. In the graph the script builds, the moon's orbit
  group is a child of the Earth's mesh and the ring a child of Saturn's mesh, both of
  them members of the registry: a ray caster that also tested the descendants of the
  objects it is given would test the moon and the ring as well.
\<close>

theorem pick_nearest_planet:
  "mouse (snd (pointer_intersects lib cx cy st)) = normalized_pointer cx cy st \<and>
   raycaster_ray (snd (pointer_intersects lib cx cy st)) =
     setFromCamera lib (normalized_pointer cx cy st) (camera st) \<and>
   fst (pointer_intersects lib cx cy st) =
     intersectObjects lib (setFromCamera lib (normalized_pointer cx cy st) (camera st))
       (objects st) (hoverablePlanets st) \<and>
   (pick lib cx cy st = None \<longleftrightarrow>
      (\<forall>t \<in> set (hoverablePlanets st). hits lib cx cy st t = [])) \<and>
   (\<forall>t. pick lib cx cy st = Some t \<longrightarrow>
      t \<in> set (hoverablePlanets st) \<and>
      (\<exists>d \<in> set (hits lib cx cy st t).
         \<forall>t' \<in> set (hoverablePlanets st). \<forall>d' \<in> set (hits lib cx cy st t'). d \<le> d')) \<and>
   get_style ''display'' (tooltip (onMouseMove lib cx cy st)) =
     Some (if pick lib cx cy st = None then ''none'' else ''block'') \<and>
   onClick lib cx cy st =
     (if \<exists>t. pick lib cx cy st = Some t \<and> userData_name (objects st ! t) = Some ''Mars''
      then showGifOverlay (snd (pointer_intersects lib cx cy st))
      else snd (pointer_intersects lib cx cy st)) \<and>
   hoverablePlanets (run lib (startup w h) evs) = [4, 6, 8, 12, 14, 16, 19, 21] \<and>
   map (\<lambda>r. userData_name (objects (run lib (startup w h) evs) ! r))
     (hoverablePlanets (run lib (startup w h) evs)) =
     [Some ''Mercury'', Some ''Venus'', Some ''Earth'', Some ''Mars'', Some ''Jupiter'',
      Some ''Saturn'', Some ''Uranus'', Some ''Neptune''] \<and>
   pick lib cx cy (run lib (startup w h) evs) \<notin> {Some 3, Some 10, Some 18}"
proof -
  let ?S = "run lib (startup w h) evs"
  have r: "raycaster_ray (snd (pointer_intersects lib cx cy st)) =
     setFromCamera lib (normalized_pointer cx cy st) (camera st)"
    by (simp add: pointer_intersects_ray pointer_ray_def)
  have i: "fst (pointer_intersects lib cx cy st) =
     intersectObjects lib (setFromCamera lib (normalized_pointer cx cy st) (camera st))
       (objects st) (hoverablePlanets st)"
    by (simp add: pointer_intersects_fst intersectObjects_def hits_def pointer_ray_def)
  have h: "hoverablePlanets ?S = [4, 6, 8, 12, 14, 16, 19, 21]"
    by (simp add: startup_hoverable)
  have u: "userData_name (objects ?S ! r) = userData_name (objects (startup w h) ! r)"
    if "r < 23" for r
    using run_userData [of r "startup w h" lib evs] that
    by (simp add: startup_length userData_name_def)
  have n: "map (\<lambda>r. userData_name (objects ?S ! r)) (hoverablePlanets ?S) =
     [Some ''Mercury'', Some ''Venus'', Some ''Earth'', Some ''Mars'', Some ''Jupiter'',
      Some ''Saturn'', Some ''Uranus'', Some ''Neptune'']"
    using startup_names [of w h] by (simp add: h startup_hoverable u)
  have p: "pick lib cx cy ?S \<notin> {Some 3, Some 10, Some 18}"
    using pick_Some [of lib cx cy ?S] by (auto simp add: startup_hoverable)
  have s: "\<forall>t. pick lib cx cy st = Some t \<longrightarrow>
      t \<in> set (hoverablePlanets st) \<and>
      (\<exists>d \<in> set (hits lib cx cy st t).
         \<forall>t' \<in> set (hoverablePlanets st). \<forall>d' \<in> set (hits lib cx cy st t'). d \<le> d')"
    using pick_Some by blast
  show ?thesis
    by (intro conjI)
       (rule pointer_intersects_mouse r i pick_None s onMouseMove_pick onClick_pick h n p)+
qed

theorem pick_nearest_planet_witness:
  "pick test_lib (Finite 400) (Finite 300) page = Some 12 \<and>
   12 \<in> set (hoverablePlanets page) \<and>
   hits test_lib (Finite 400) (Finite 300) page 12 = [5] \<and>
   hits test_lib (Finite 400) (Finite 300) page 8 = [7, 9] \<and>
   hits test_lib (Finite 400) (Finite 300) page 4 = [] \<and>
   userData_name (objects page ! 12) = Some ''Mars''"
  using pick_nearest_planet [of test_lib "Finite 400" "Finite 300" page]
    pick_test_lib [of page "Finite 400" "Finite 300"] page_mars
  by (simp add: hits_test_lib)

text \<open>
  Claim C8 (determinism of pick). Two picks with the same normalized pointer
  coordinates, in states with the same camera, the same objects and the same registry,
  return the same result; so do two picks at the same pointer position in windows of the
  same size. What an earlier pick, hover or click left in \<^verbatim>\<open>mouse\<close>, in the ray
  caster, in the tooltip or in the overlay has no influence.
\<close>

theorem pick_deterministic:
  "(camera st1 = camera st2 \<and> objects st1 = objects st2 \<and>
    hoverablePlanets st1 = hoverablePlanets st2 \<and>
    mouse (snd (pointer_intersects lib cx1 cy1 st1)) =
      mouse (snd (pointer_intersects lib cx2 cy2 st2)) \<longrightarrow>
    pick lib cx1 cy1 st1 = pick lib cx2 cy2 st2) \<and>
   (camera st1 = camera st2 \<and> objects st1 = objects st2 \<and>
    hoverablePlanets st1 = hoverablePlanets st2 \<and>
    innerWidth st1 = innerWidth st2 \<and> innerHeight st1 = innerHeight st2 \<longrightarrow>
    pick lib cx cy st1 = pick lib cx cy st2) \<and>
   pick lib cx cy (snd (pointer_intersects lib cx' cy' st)) = pick lib cx cy st \<and>
   pick lib cx cy (onMouseMove lib cx' cy' st) = pick lib cx cy st \<and>
   pick lib cx cy (onClick lib cx' cy' st) = pick lib cx cy st"
proof -
  have a: "pick lib cx1 cy1 st1 = pick lib cx2 cy2 st2"
    if "camera st1 = camera st2" "objects st1 = objects st2"
      "hoverablePlanets st1 = hoverablePlanets st2"
      "mouse (snd (pointer_intersects lib cx1 cy1 st1)) =
         mouse (snd (pointer_intersects lib cx2 cy2 st2))"
    for st1 st2 :: app_state and cx1 cy1 cx2 cy2
    using that
    by (simp add: pick_def pointer_intersects_fst hits_def pointer_ray_def
        pointer_intersects_mouse)
  have b: "pick lib cx cy st1 = pick lib cx cy st2"
    if "camera st1 = camera st2" "objects st1 = objects st2"
      "hoverablePlanets st1 = hoverablePlanets st2"
      "innerWidth st1 = innerWidth st2" "innerHeight st1 = innerHeight st2"
    for st1 st2 :: app_state and cx cy
    using that by (intro a) (simp_all add: pointer_intersects_mouse normalized_pointer_def)
  have c: "pick lib cx cy (snd (pointer_intersects lib cx' cy' st)) = pick lib cx cy st"
    "pick lib cx cy (onMouseMove lib cx' cy' st) = pick lib cx cy st"
    "pick lib cx cy (onClick lib cx' cy' st) = pick lib cx cy st"
    by (rule b; simp)+
  show ?thesis
    using a [of st1 st2 cx1 cy1 cx2 cy2] b [of st1 st2 cx cy] c by blast
qed

theorem pick_deterministic_witness:
  "camera (onMouseMove test_lib (Finite 1) (Finite 2) page) = camera page \<and>
   objects (onMouseMove test_lib (Finite 1) (Finite 2) page) = objects page \<and>
   hoverablePlanets (onMouseMove test_lib (Finite 1) (Finite 2) page) = hoverablePlanets page \<and>
   innerWidth (onMouseMove test_lib (Finite 1) (Finite 2) page) = innerWidth page \<and>
   innerHeight (onMouseMove test_lib (Finite 1) (Finite 2) page) = innerHeight page \<and>
   pick test_lib (Finite 400) (Finite 300) (onMouseMove test_lib (Finite 1) (Finite 2) page) =
     pick test_lib (Finite 400) (Finite 300) page"
  using pick_deterministic [of "onMouseMove test_lib (Finite 1) (Finite 2) page" page test_lib
      "Finite 400" "Finite 300" "Finite 400" "Finite 300" "Finite 400" "Finite 300"]
  by simp

subsection \<open>Rotation over time\<close>

text \<open>
  Claim C10 (monotonicity of rotation). Every speed in the animation list of the stock
  page is a finite positive number: the eight speeds of the catalog and the speed of the
  moon. So in every state the page reaches by events whose frames have a time step that
  is not negative (an infinite step included), in either pause state, an \<^verbatim>\<open>advance\<close> call
  with a time step that is not negative decreases the rotation angle of no object: the
  angle after is at least the angle before, in double precision arithmetic.

  The same holds for any state, whatever its animation list, when its speeds are finite
  and not negative, the time step is finite and not negative and every angle is a double
  or \<open>+\<infinity>\<close>; the angles are again of that kind after the call.
\<close>

theorem rotation_monotone:
  "(\<forall>it \<in> set (planetOrbits (startup w h)). positive_finite (speed it)) \<and>
   (list_all nonneg_frame evs \<and> js_le (Finite 0) delta \<longrightarrow>
      (\<forall>r < length (objects (run lib (startup w h) evs)).
         js_le (rotation_y (run lib (startup w h) evs) r)
           (rotation_y (advance delta (run lib (startup w h) evs)) r))) \<and>
   ((\<forall>it \<in> set (planetOrbits st). nonneg_finite (speed it)) \<and> nonneg_finite delta \<and>
    (\<forall>r < length (objects st). valid_angle (rotation_y st r)) \<longrightarrow>
      (\<forall>r < length (objects st).
         js_le (rotation_y st r) (rotation_y (advance delta st) r) \<and>
         valid_angle (rotation_y (advance delta st) r)))"
proof (intro conjI impI allI)
  show "\<forall>it \<in> set (planetOrbits (startup w h)). positive_finite (speed it)"
    by (rule startup_speeds)
next
  fix r
  let ?S = "run lib (startup w h) evs"
  assume a: "list_all nonneg_frame evs \<and> js_le (Finite 0) delta" and r: "r < length (objects ?S)"
  have v: "valid_angle (rotation_y ?S r)"
    using a r startup_speeds [of w h] by (intro run_valid startup_valid) simp_all
  have "\<forall>it \<in> set (planetOrbits ?S). increment (js_mul (js_mul (speed it) delta) (num 60))"
    using a startup_speeds [of w h] by (simp add: increment_positive)
  from advance_angle_mono [OF this v r]
  show "js_le (rotation_y ?S r) (rotation_y (advance delta ?S) r)" by simp
next
  fix r
  assume a: "(\<forall>it \<in> set (planetOrbits st). nonneg_finite (speed it)) \<and> nonneg_finite delta \<and>
    (\<forall>r < length (objects st). valid_angle (rotation_y st r))" and r: "r < length (objects st)"
  have "\<forall>it \<in> set (planetOrbits st). increment (js_mul (js_mul (speed it) delta) (num 60))"
    using a by (simp add: increment_nonneg)
  moreover have "valid_angle (rotation_y st r)" using a r by simp
  ultimately show "js_le (rotation_y st r) (rotation_y (advance delta st) r)"
    "valid_angle (rotation_y (advance delta st) r)"
    using advance_angle_mono [of st delta r] r by simp_all
qed

theorem rotation_monotone_witness:
  "list_all nonneg_frame [Frame (Finite 1), MouseDown, Frame PosInf, MouseUp] \<and>
   js_le (Finite 0) (Finite (1 / 2)) \<and>
   5 < length (objects (run test_lib page [Frame (Finite 1), MouseDown, Frame PosInf, MouseUp])) \<and>
   js_le (rotation_y (run test_lib page [Frame (Finite 1), MouseDown, Frame PosInf, MouseUp]) 5)
     (rotation_y (advance (Finite (1 / 2))
        (run test_lib page [Frame (Finite 1), MouseDown, Frame PosInf, MouseUp])) 5) \<and>
   positive_finite (speed (planetOrbits page ! 0)) \<and>
   nonneg_finite (speed (planetOrbits page ! 0)) \<and> nonneg_finite (Finite (1 / 2)) \<and>
   valid_angle (rotation_y page 5) \<and> 5 < length (objects page) \<and>
   js_le (rotation_y page 5) (rotation_y (advance (Finite (1 / 2)) page) 5) \<and>
   valid_angle (rotation_y (advance (Finite (1 / 2)) page) 5)"
proof -
  have l: "5 < length (objects (run test_lib page [Frame (Finite 1), MouseDown, Frame PosInf, MouseUp]))"
    "5 < length (objects page)"
    by (simp_all add: page_def startup_length)
  have p: "planetOrbits page ! 0 \<in> set (planetOrbits page)"
    by (simp add: page_def startup_orbits)
  have s: "\<forall>it \<in> set (planetOrbits page). nonneg_finite (speed it)"
    using startup_speeds [of "Finite 800" "Finite 600"]
    by (simp add: page_def positive_finite_def)
  have v: "\<forall>r < length (objects page). valid_angle (rotation_y page r)"
    by (simp add: page_def startup_valid)
  have n: "nonneg_finite (Finite (1 / 2))" by (simp add: nonneg_finite_def)
  show ?thesis
    using rotation_monotone [of "Finite 800" "Finite 600"
        "[Frame (Finite 1), MouseDown, Frame PosInf, MouseUp]" "Finite (1 / 2)" test_lib page]
      l p s v n
    unfolding page_def [symmetric] by simp
qed




end
